theory Spec2Isabelle
  imports Complex_Main
begin

section \<open>Numeric model\<close>

text \<open>
  The program computes on torch tensors of floating-point numbers. The embedding takes
  the entries of a tensor to be real numbers: arithmetic is exact, there is no rounding
  and \<open>exp\<close> never overflows. What floating point adds beyond that and the claims
  talk about, a result that is not finite (NaN or an infinity), is kept as a value of its
  own: a scalar result is a \<open>real option\<close>, and \<open>None\<close> stands for
  a non-finite float. A non-finite operand makes every sum and every product non-finite
  (an infinity times zero is NaN), so \<open>None\<close> is absorbing.

  This holds for the datasets, the estimator and the spectral-entropy regularizer. The
  clipped losses are modelled on floating-point numbers with rounding, further below.

  An exception of the Python code is a value of \<open>py_error\<close>; a function that can
  raise returns \<open>py_error + 'a\<close>.
\<close>

datatype py_error = ValueError | IndexError | TypeError | RuntimeError | ZeroDivisionError

text \<open>
  A tensor is its shape and its entries, read by a multi-index; only the entries at the
  indices of the shape belong to the tensor. The entries of an input are real numbers
  (\<open>real tensor\<close>); the entries after a logarithm may be non-finite
  (\<open>real option tensor\<close>).
\<close>

datatype 'a tensor = Tensor (shape: "nat list") (elem: "nat list \<Rightarrow> 'a")

definition numel :: "'a tensor \<Rightarrow> nat" where
  "numel t = prod_list (shape t)"

fun indices :: "nat list \<Rightarrow> nat list list" where
  "indices [] = [[]]"
| "indices (n # ns) = concat (map (\<lambda>i. map ((#) i) (indices ns)) [0..<n])"

fun unravel :: "nat list \<Rightarrow> nat \<Rightarrow> nat list" where
  "unravel [] k = []"
| "unravel (n # ns) k = (k div prod_list ns) # unravel ns (k mod prod_list ns)"

text \<open>\<open>Tensor.flatten\<close>: the same entries in row-major order, in one dimension.\<close>

definition flatten :: "real tensor \<Rightarrow> real tensor" where
  "flatten t =
     Tensor [numel t] (\<lambda>i. case i of [k] \<Rightarrow> elem t (unravel (shape t) k) | _ \<Rightarrow> 0)"

text \<open>Indexing a Python sequence with an integer: a negative index counts from the end.\<close>

definition py_getitem :: "'a list \<Rightarrow> int \<Rightarrow> py_error + 'a" where
  "py_getitem xs idx =
     (if 0 \<le> idx \<and> idx < int (length xs) then Inr (xs ! nat idx)
      else if idx < 0 \<and> - int (length xs) \<le> idx then Inr (xs ! nat (int (length xs) + idx))
      else Inl IndexError)"

section \<open>Tensor operations\<close>

text \<open>An index is an index of a shape when it has its length and is below it everywhere.\<close>

definition valid_index :: "nat list \<Rightarrow> nat list \<Rightarrow> bool" where
  "valid_index sh i = list_all2 (<) i sh"

text \<open>
  Broadcasting of two shapes, aligned at their last dimensions: two sizes go together
  when they are equal or one of them is 1. The shapes are given last dimension first.
\<close>

fun broadcast_rev :: "nat list \<Rightarrow> nat list \<Rightarrow> nat list option" where
  "broadcast_rev [] ys = Some ys"
| "broadcast_rev (x # xs) [] = Some (x # xs)"
| "broadcast_rev (x # xs) (y # ys) =
     (if x = y \<or> y = 1 then map_option ((#) x) (broadcast_rev xs ys)
      else if x = 1 then map_option ((#) y) (broadcast_rev xs ys)
      else None)"

definition broadcast_shapes :: "nat list \<Rightarrow> nat list \<Rightarrow> nat list option" where
  "broadcast_shapes a b = map_option rev (broadcast_rev (rev a) (rev b))"

text \<open>
  The index of an operand of shape \<open>sh\<close> that the index \<open>i\<close> of the broadcast result
  reads (both last dimension first): the leading dimensions the operand lacks are dropped,
  and a dimension of size 1 is read at 0.
\<close>

fun operand_index_rev :: "nat list \<Rightarrow> nat list \<Rightarrow> nat list" where
  "operand_index_rev [] i = []"
| "operand_index_rev (d # ds) [] = []"
| "operand_index_rev (d # ds) (k # ks) = (if d = 1 then 0 else k) # operand_index_rev ds ks"

definition operand_index :: "nat list \<Rightarrow> nat list \<Rightarrow> nat list" where
  "operand_index sh i = rev (operand_index_rev (rev sh) (rev i))"

text \<open>An elementwise operation of one tensor, and of two tensors with broadcasting.\<close>

definition tmap :: "('a \<Rightarrow> 'b) \<Rightarrow> 'a tensor \<Rightarrow> 'b tensor" where
  "tmap f t = Tensor (shape t) (\<lambda>i. f (elem t i))"

definition tbinop ::
  "('a \<Rightarrow> 'b \<Rightarrow> 'c) \<Rightarrow> 'a tensor \<Rightarrow> 'b tensor \<Rightarrow> py_error + 'c tensor" where
  "tbinop f a b =
     (case broadcast_shapes (shape a) (shape b) of
        None \<Rightarrow> Inl RuntimeError
      | Some s \<Rightarrow>
          Inr (Tensor s (\<lambda>i. f (elem a (operand_index (shape a) i))
                                 (elem b (operand_index (shape b) i)))))"

text \<open>\<open>Tensor.unsqueeze(-1)\<close>: a last dimension of size 1 is added.\<close>

definition unsqueeze_last :: "'a tensor \<Rightarrow> 'a tensor" where
  "unsqueeze_last t = Tensor (shape t @ [1]) (\<lambda>i. elem t (butlast i))"

text \<open>\<open>Tensor.sum()\<close> over all entries of a tensor of real numbers.\<close>

definition tsum :: "real tensor \<Rightarrow> real" where
  "tsum t = sum_list (map (elem t) (indices (shape t)))"






text \<open>
  \<open>Tensor.view\<close> and \<open>Tensor.reshape\<close> to the shape \<open>(-1, c)\<close>, with the first
  dimension inferred: an error when \<open>c\<close> does not divide the number of entries, and when
  \<open>c\<close> is 0 (no first dimension fits, or, for a tensor with no entry, any does).
\<close>

definition view_rows :: "nat \<Rightarrow> 'a tensor \<Rightarrow> py_error + 'a tensor" where
  "view_rows c t =
     (if c = 0 \<or> numel t mod c \<noteq> 0 then Inl RuntimeError
      else Inr (Tensor [numel t div c, c]
                  (\<lambda>i. elem t (unravel (shape t) (hd i * c + hd (tl i))))))"

text \<open>
  \<open>torch.stack\<close> of a list of tensors along a new first dimension: an error for the
  empty list and for tensors of different shapes.
\<close>

definition stack :: "'a tensor list \<Rightarrow> py_error + 'a tensor" where
  "stack ts =
     (case ts of
        [] \<Rightarrow> Inl RuntimeError
      | t # _ \<Rightarrow>
          if \<exists>u \<in> set ts. shape u \<noteq> shape t then Inl RuntimeError
          else Inr (Tensor (length ts # shape t) (\<lambda>i. elem (ts ! hd i) (tl i))))"

text \<open>
  Indexing a tensor with an integer, along its first dimension; a negative index counts
  from the end. A tensor of no dimension cannot be indexed.
\<close>

definition tensor_getitem :: "'a tensor \<Rightarrow> int \<Rightarrow> py_error + 'a tensor" where
  "tensor_getitem t idx =
     (case shape t of
        [] \<Rightarrow> Inl IndexError
      | n # sh \<Rightarrow>
          if 0 \<le> idx \<and> idx < int n then Inr (Tensor sh (\<lambda>i. elem t (nat idx # i)))
          else if idx < 0 \<and> - int n \<le> idx then Inr (Tensor sh (\<lambda>i. elem t (nat (int n + idx) # i)))
          else Inl IndexError)"

section \<open>Floating-point numbers\<close>

text \<open>
  The clipped losses are stated on floating-point tensors, since what they claim depends
  on rounding and on overflow. A float is a finite number, an infinity or NaN; the two
  zeros of IEEE 754 compare equal and are one value here. An arithmetic operation on
  finite operands yields the exact result rounded by the rounding function of the format,
  which returns an infinity on overflow; on the other operands it follows IEEE 754.
\<close>

datatype fl = Fin real | PInf | NInf | NaN

definition fl_finite :: "fl \<Rightarrow> bool" where
  "fl_finite a = (case a of Fin x \<Rightarrow> True | _ \<Rightarrow> False)"

fun fl_neg :: "fl \<Rightarrow> fl" where
  "fl_neg (Fin x) = Fin (- x)"
| "fl_neg PInf = NInf"
| "fl_neg NInf = PInf"
| "fl_neg NaN = NaN"

fun fl_add :: "(real \<Rightarrow> fl) \<Rightarrow> fl \<Rightarrow> fl \<Rightarrow> fl" where
  "fl_add r (Fin x) (Fin y) = r (x + y)"
| "fl_add r NaN b = NaN"
| "fl_add r a NaN = NaN"
| "fl_add r PInf NInf = NaN"
| "fl_add r NInf PInf = NaN"
| "fl_add r PInf b = PInf"
| "fl_add r a PInf = PInf"
| "fl_add r NInf b = NInf"
| "fl_add r a NInf = NInf"

definition fl_sub :: "(real \<Rightarrow> fl) \<Rightarrow> fl \<Rightarrow> fl \<Rightarrow> fl" where
  "fl_sub r a b = fl_add r a (fl_neg b)"

fun fl_mul :: "(real \<Rightarrow> fl) \<Rightarrow> fl \<Rightarrow> fl \<Rightarrow> fl" where
  "fl_mul r (Fin x) (Fin y) = r (x * y)"
| "fl_mul r NaN b = NaN"
| "fl_mul r a NaN = NaN"
| "fl_mul r (Fin x) PInf = (if x = 0 then NaN else if 0 < x then PInf else NInf)"
| "fl_mul r (Fin x) NInf = (if x = 0 then NaN else if 0 < x then NInf else PInf)"
| "fl_mul r PInf (Fin y) = (if y = 0 then NaN else if 0 < y then PInf else NInf)"
| "fl_mul r NInf (Fin y) = (if y = 0 then NaN else if 0 < y then NInf else PInf)"
| "fl_mul r PInf PInf = PInf"
| "fl_mul r PInf NInf = NInf"
| "fl_mul r NInf PInf = NInf"
| "fl_mul r NInf NInf = PInf"

fun fl_div :: "(real \<Rightarrow> fl) \<Rightarrow> fl \<Rightarrow> fl \<Rightarrow> fl" where
  "fl_div r (Fin x) (Fin y) =
     (if y = 0 then (if x = 0 then NaN else if 0 < x then PInf else NInf) else r (x / y))"
| "fl_div r NaN b = NaN"
| "fl_div r a NaN = NaN"
| "fl_div r (Fin x) PInf = Fin 0"
| "fl_div r (Fin x) NInf = Fin 0"
| "fl_div r PInf (Fin y) = (if 0 \<le> y then PInf else NInf)"
| "fl_div r NInf (Fin y) = (if 0 \<le> y then NInf else PInf)"
| "fl_div r PInf b = NaN"
| "fl_div r NInf b = NaN"

fun fl_exp :: "(real \<Rightarrow> fl) \<Rightarrow> fl \<Rightarrow> fl" where
  "fl_exp r (Fin x) = r (exp x)"
| "fl_exp r PInf = PInf"
| "fl_exp r NInf = Fin 0"
| "fl_exp r NaN = NaN"

text \<open>The order of the floats; NaN is not comparable.\<close>

fun fl_le :: "fl \<Rightarrow> fl \<Rightarrow> bool" where
  "fl_le (Fin x) (Fin y) = (x \<le> y)"
| "fl_le NaN b = False"
| "fl_le a NaN = False"
| "fl_le NInf b = True"
| "fl_le a PInf = True"
| "fl_le PInf b = False"
| "fl_le a NInf = False"

text \<open>
  \<open>torch.min\<close> and \<open>torch.max\<close> of two tensors, entry by entry: a NaN operand gives
  NaN. \<open>torch.clamp(x, lo, hi)\<close> is \<open>min(max(x, lo), hi)\<close>, also when \<open>hi < lo\<close>.
\<close>

definition fl_min :: "fl \<Rightarrow> fl \<Rightarrow> fl" where
  "fl_min a b = (if a = NaN \<or> b = NaN then NaN else if fl_le a b then a else b)"

definition fl_max :: "fl \<Rightarrow> fl \<Rightarrow> fl" where
  "fl_max a b = (if a = NaN \<or> b = NaN then NaN else if fl_le a b then b else a)"

definition fl_clamp :: "fl \<Rightarrow> fl \<Rightarrow> fl \<Rightarrow> fl" where
  "fl_clamp lo hi a = fl_min (fl_max a lo) hi"

text \<open>
  The arithmetic of a tensor library on one floating-point format: the rounding function
  of the format, which the four basic operations use; the exponential function of the
  library, of which IEEE 754 does not fix the last bit; and the mean of a list of floats,
  of which the library chooses the order of the additions and the way to divide by the
  number of entries.
\<close>

record float_arith =
  rnd :: "real \<Rightarrow> fl"
  fexp :: "fl \<Rightarrow> fl"
  fmean :: "fl list \<Rightarrow> fl"

text \<open>
  What the proofs use of a format and of the library: zero is a float, rounding keeps the
  sign, and the mean of zeros, at least one, is zero.
\<close>

definition float_format :: "float_arith \<Rightarrow> bool" where
  "float_format F \<longleftrightarrow>
     rnd F 0 = Fin 0 \<and>
     (\<forall>x. 0 \<le> x \<longrightarrow> fl_le (Fin 0) (rnd F x)) \<and>
     (\<forall>x. x \<le> 0 \<longrightarrow> fl_le (rnd F x) (Fin 0)) \<and>
     (\<forall>n. 0 < n \<longrightarrow> fmean F (replicate n (Fin 0)) = Fin 0)"

text \<open>\<open>Tensor.mean()\<close> over all entries of a tensor.\<close>

definition fl_mean :: "float_arith \<Rightarrow> fl tensor \<Rightarrow> fl" where
  "fl_mean F t = fmean F (map (elem t) (indices (shape t)))"

subsection \<open>The formats binary32 and binary64\<close>

text \<open>
  Rounding to the nearest integer, ties to the even one; rounding of a real number to the
  nearest number with \<open>p\<close> significant bits and the least exponent \<open>emin\<close> (with
  subnormal numbers), ties to even; this rounding for binary32, the format of a
  \<open>FloatTensor\<close>, and for binary64, the format of a Python float; and the rounding
  function of binary32, with overflow from \<open>2^128 - 2^103\<close> on, half a unit in the last
  place above the largest finite number.
\<close>

definition rhe :: "real \<Rightarrow> int" where
  "rhe y =
     (let f = \<lfloor>y\<rfloor>
      in if y - of_int f < 1/2 then f
         else if 1/2 < y - of_int f then f + 1
         else if even f then f else f + 1)"

definition nearest :: "nat \<Rightarrow> int \<Rightarrow> real \<Rightarrow> real" where
  "nearest p emin x =
     (if x = 0 then 0
      else (let e = max \<lfloor>log 2 \<bar>x\<bar>\<rfloor> emin - (int p - 1)
            in of_int (rhe (x / 2 powr of_int e)) * 2 powr of_int e))"

definition nearest32 :: "real \<Rightarrow> real" where
  "nearest32 x = nearest 24 (- 126) x"

definition nearest64 :: "real \<Rightarrow> real" where
  "nearest64 x = nearest 53 (- 1022) x"

definition round32 :: "real \<Rightarrow> fl" where
  "round32 x =
     (if 2 ^ 128 - 2 ^ 103 \<le> x then PInf
      else if x \<le> - (2 ^ 128 - 2 ^ 103) then NInf
      else Fin (nearest32 x))"

text \<open>
  The mean of a list of binary32 numbers as the sum of the entries, added one after the
  other, divided by their number; for no entry this is 0 / 0, which is NaN.
\<close>

definition mean32 :: "fl list \<Rightarrow> fl" where
  "mean32 xs =
     fl_div round32 (foldl (fl_add round32) (Fin 0) xs) (round32 (real (length xs)))"

text \<open>binary32 with this mean and a correctly rounded exponential function.\<close>

definition binary32 :: float_arith where
  "binary32 = \<lparr>rnd = round32, fexp = fl_exp round32, fmean = mean32\<rparr>"

section \<open>Transitions and the advantage and return estimator\<close>

text \<open>The named tuple \<open>Memory\<close> of \<open>algorithms/dataset.py\<close>.\<close>

record Memory =
  state :: "real tensor"
  action :: "real tensor"
  action_log_prob :: "real tensor"
  reward :: real
  "done" :: real
  "value" :: real

text \<open>
  Modelled from the spec: \<open>get_gae_advantages\<close> of \<open>algorithms/utils.py\<close>, which
  the dataset imports and whose source is not at hand. The spec (4.1): iterate the episode
  in reverse chronological order with a running accumulator \<open>gae\<close>, at each step
  \<open>delta = reward + \<gamma> * next_value * (1 - done) - value\<close> and
  \<open>gae = delta + \<gamma> * \<lambda> * (1 - done) * gae\<close>, where \<open>next_value\<close> is the value of
  the following transition, or 0 at the final step; the sequence computed in reverse is
  reversed again before it is returned. The discount \<open>\<gamma>\<close> and the trace decay
  \<open>\<lambda>\<close> are parameters: their defaults are in the missing file.
\<close>

fun gae_loop :: "real \<Rightarrow> real \<Rightarrow> Memory list \<Rightarrow> real \<Rightarrow> real \<Rightarrow> real list \<Rightarrow> real list" where
  "gae_loop gamma lam [] gae next_value acc = acc"
| "gae_loop gamma lam (m # ms) gae next_value acc =
     (let delta = reward m + gamma * next_value * (1 - done m) - value m;
          gae' = delta + gamma * lam * (1 - done m) * gae
      in gae_loop gamma lam ms gae' (value m) (acc @ [gae']))"

definition get_gae_advantages :: "real \<Rightarrow> real \<Rightarrow> Memory list \<Rightarrow> real list" where
  "get_gae_advantages gamma lam episode = rev (gae_loop gamma lam (rev episode) 0 0 [])"

text \<open>
  Modelled from the spec: \<open>get_returns\<close> of \<open>algorithms/utils.py\<close>, whose source is
  not at hand. The spec (4.1): \<open>return[i] = value[i] + advantage[i]\<close>, elementwise; the
  two inputs have the same length, and the computation fails with a shape or length error
  otherwise.
\<close>

definition get_returns :: "real list \<Rightarrow> real list \<Rightarrow> py_error + real list" where
  "get_returns values advantages =
     (if length values \<noteq> length advantages then Inl ValueError
      else Inr (map2 (+) values advantages))"

section \<open>The experience dataset\<close>

record ExperienceDataset =
  ds_advantages :: "real list"
  ds_episodes :: "Memory list"
  ds_states :: "real tensor list"
  ds_actions :: "real tensor list"
  ds_actions_log_prob :: "real tensor list"
  ds_rewards :: "real list"
  ds_done :: "real list"
  ds_values :: "real list"
  ds_returns :: "real list"

text \<open>
  \<open>zip( *episodes)\<close> unpacked into six names: the six columns of the transitions.
  Zipping no transition at all yields no column, and the unpacking into six names raises
  \<open>ValueError\<close>.
\<close>

definition unzip_memories ::
  "Memory list \<Rightarrow>
   py_error + (real tensor list \<times> real tensor list \<times> real tensor list \<times> real list \<times> real list \<times> real list)" where
  "unzip_memories ms =
     (if ms = [] then Inl ValueError
      else Inr (map state ms, map action ms, map action_log_prob ms,
                map reward ms, map done ms, map value ms))"

text \<open>\<open>ExperienceDataset.__init__\<close>.\<close>

definition ExperienceDataset_init ::
  "real \<Rightarrow> real \<Rightarrow> Memory list list \<Rightarrow> py_error + ExperienceDataset" where
  "ExperienceDataset_init gamma lam episodes =
     (let advantages = concat (map (get_gae_advantages gamma lam) episodes);
          flat = concat episodes
      in case unzip_memories flat of
           Inl e \<Rightarrow> Inl e
         | Inr (states, actions, actions_log_prob, rewards, dones, vals) \<Rightarrow>
             (case get_returns vals advantages of
                Inl e \<Rightarrow> Inl e
              | Inr returns \<Rightarrow>
                  Inr \<lparr>ds_advantages = advantages, ds_episodes = flat, ds_states = states,
                       ds_actions = actions, ds_actions_log_prob = actions_log_prob,
                       ds_rewards = rewards, ds_done = dones, ds_values = vals,
                       ds_returns = returns\<rparr>))"

text \<open>\<open>ExperienceDataset.__len__\<close>.\<close>

definition ExperienceDataset_len :: "ExperienceDataset \<Rightarrow> nat" where
  "ExperienceDataset_len ds = length (ds_states ds)"

text \<open>
  \<open>ExperienceDataset.__getitem__\<close>: the eight components are evaluated from left to
  right, and the first one that raises ends the call.
\<close>

definition ExperienceDataset_getitem ::
  "ExperienceDataset \<Rightarrow> int \<Rightarrow>
   py_error + (real tensor \<times> real tensor \<times> real tensor \<times> real \<times> real \<times> real \<times> real \<times> real)" where
  "ExperienceDataset_getitem ds idx =
     (case py_getitem (ds_states ds) idx of Inl e \<Rightarrow> Inl e | Inr s \<Rightarrow>
     (case py_getitem (ds_actions ds) idx of Inl e \<Rightarrow> Inl e | Inr a \<Rightarrow>
     (case py_getitem (ds_actions_log_prob ds) idx of Inl e \<Rightarrow> Inl e | Inr lp \<Rightarrow>
     (case py_getitem (ds_rewards ds) idx of Inl e \<Rightarrow> Inl e | Inr r \<Rightarrow>
     (case py_getitem (ds_done ds) idx of Inl e \<Rightarrow> Inl e | Inr d \<Rightarrow>
     (case py_getitem (ds_values ds) idx of Inl e \<Rightarrow> Inl e | Inr v \<Rightarrow>
     (case py_getitem (ds_advantages ds) idx of Inl e \<Rightarrow> Inl e | Inr adv \<Rightarrow>
     (case py_getitem (ds_returns ds) idx of Inl e \<Rightarrow> Inl e | Inr ret \<Rightarrow>
        Inr (flatten s, flatten a, flatten lp, r, d, v, adv, ret)))))))))"

section \<open>The auxiliary dataset\<close>

text \<open>
  The named tuple \<open>MemoryAux\<close> has the fields \<open>state\<close>, \<open>actions\<close> and
  \<open>value\<close>; the dataset reads them, in this order, as state, return and old value.
\<close>

record MemoryAux =
  aux_state :: "real tensor"
  aux_actions :: "real tensor"
  aux_value :: "real tensor"

record ExperienceAuxDataset =
  xa_episodes_aux :: "MemoryAux list"
  xa_states :: "real tensor"
  xa_returns :: "real tensor"
  xa_old_values :: "real tensor"
  xa_action_log_probs :: "real tensor option"

definition unzip_aux ::
  "MemoryAux list \<Rightarrow> py_error + (real tensor list \<times> real tensor list \<times> real tensor list)" where
  "unzip_aux ms =
     (if ms = [] then Inl ValueError
      else Inr (map aux_state ms, map aux_actions ms, map aux_value ms))"

text \<open>
  \<open>ExperienceAuxDataset.__init__\<close>. The argument \<open>action_log_probs\<close> defaults to
  \<open>None\<close> and is stored as it is.
\<close>

definition ExperienceAuxDataset_init ::
  "MemoryAux list \<Rightarrow> real tensor option \<Rightarrow> py_error + ExperienceAuxDataset" where
  "ExperienceAuxDataset_init episodes_aux action_log_probs =
     (case unzip_aux episodes_aux of Inl e \<Rightarrow> Inl e | Inr (states, returns, old_values) \<Rightarrow>
     (case stack states of Inl e \<Rightarrow> Inl e | Inr stacked \<Rightarrow>
     (case view_rows (last (shape stacked)) stacked of Inl e \<Rightarrow> Inl e | Inr states' \<Rightarrow>
     (case stack returns of Inl e \<Rightarrow> Inl e | Inr rs \<Rightarrow>
     (case view_rows 1 rs of Inl e \<Rightarrow> Inl e | Inr returns' \<Rightarrow>
     (case stack old_values of Inl e \<Rightarrow> Inl e | Inr vs \<Rightarrow>
     (case view_rows 1 vs of Inl e \<Rightarrow> Inl e | Inr old_values' \<Rightarrow>
        Inr \<lparr>xa_episodes_aux = episodes_aux, xa_states = states', xa_returns = returns',
             xa_old_values = old_values', xa_action_log_probs = action_log_probs\<rparr>)))))))"

text \<open>\<open>ExperienceAuxDataset.__len__\<close>: the size of the first dimension of the states.\<close>

definition ExperienceAuxDataset_len :: "ExperienceAuxDataset \<Rightarrow> py_error + nat" where
  "ExperienceAuxDataset_len ds =
     (case shape (xa_states ds) of [] \<Rightarrow> Inl TypeError | n # _ \<Rightarrow> Inr n)"

text \<open>
  \<open>ExperienceAuxDataset.__getitem__\<close>: the four components are evaluated from left to
  right. Subscripting \<open>None\<close> raises \<open>TypeError\<close>.
\<close>

definition ExperienceAuxDataset_getitem ::
  "ExperienceAuxDataset \<Rightarrow> int \<Rightarrow>
   py_error + (real tensor \<times> real tensor \<times> real tensor \<times> real tensor)" where
  "ExperienceAuxDataset_getitem ds idx =
     (case tensor_getitem (xa_states ds) idx of Inl e \<Rightarrow> Inl e | Inr s \<Rightarrow>
     (case tensor_getitem (xa_returns ds) idx of Inl e \<Rightarrow> Inl e | Inr r \<Rightarrow>
     (case tensor_getitem (xa_old_values ds) idx of Inl e \<Rightarrow> Inl e | Inr v \<Rightarrow>
     (case xa_action_log_probs ds of
        None \<Rightarrow> Inl TypeError
      | Some alp \<Rightarrow>
          (case tensor_getitem alp idx of Inl e \<Rightarrow> Inl e | Inr lp \<Rightarrow>
             Inr (flatten s, flatten r, flatten v, flatten lp))))))"

section \<open>The loss functions\<close>

subsection \<open>Clipped actor loss\<close>

text \<open>
  \<open>ClipActorLoss.forward\<close>, of an instance with the clip parameter \<open>eps\<close>, on
  floating-point tensors. The parameter is a Python float; so are the bounds
  \<open>1 - eps\<close> and \<open>1 + eps\<close>, which the clamp rounds to the format of the tensor.
\<close>

definition ClipActorLoss_forward ::
  "float_arith \<Rightarrow> real \<Rightarrow> fl tensor \<Rightarrow> fl tensor \<Rightarrow> fl tensor \<Rightarrow> py_error + fl" where
  "ClipActorLoss_forward F eps old_actions_log_probs new_actions_log_probs advantages =
     (case tbinop (fl_sub (rnd F)) new_actions_log_probs old_actions_log_probs of
        Inl e \<Rightarrow> Inl e
      | Inr d \<Rightarrow>
     (let ratio = tmap (fexp F) d in
     (case tbinop (fl_mul (rnd F)) ratio (unsqueeze_last advantages) of
        Inl e \<Rightarrow> Inl e
      | Inr surrogate_1 \<Rightarrow>
     (case tbinop (fl_mul (rnd F))
             (tmap (fl_clamp (rnd F (nearest64 (1 - eps))) (rnd F (nearest64 (1 + eps)))) ratio)
             (unsqueeze_last advantages) of
        Inl e \<Rightarrow> Inl e
      | Inr surrogate_2 \<Rightarrow>
     (case tbinop fl_min surrogate_1 surrogate_2 of
        Inl e \<Rightarrow> Inl e
      | Inr m \<Rightarrow> Inr (fl_neg (fl_mean F m)))))))"

text \<open>
  One entry of the clipped surrogate, as the spec words it:
  \<open>min(ratio * adv, clip(ratio, 1 - eps, 1 + eps) * adv)\<close> with
  \<open>ratio = exp(new - old)\<close>.
\<close>

definition clipped_surrogate :: "float_arith \<Rightarrow> real \<Rightarrow> fl \<Rightarrow> fl \<Rightarrow> fl \<Rightarrow> fl" where
  "clipped_surrogate F eps old_lp new_lp adv =
     (let ratio = fexp F (fl_sub (rnd F) new_lp old_lp)
      in fl_min (fl_mul (rnd F) ratio adv)
                (fl_mul (rnd F)
                   (fl_clamp (rnd F (nearest64 (1 - eps))) (rnd F (nearest64 (1 + eps))) ratio)
                   adv))"

subsection \<open>Clipped critic loss\<close>

text \<open>
  \<open>ClipCriticLoss.forward\<close>, of an instance with the clip parameter \<open>eps\<close>, a
  Python float, on floating-point tensors; \<open>x ** 2\<close> is \<open>x * x\<close>.
\<close>

definition ClipCriticLoss_forward ::
  "float_arith \<Rightarrow> real \<Rightarrow> fl tensor \<Rightarrow> fl tensor \<Rightarrow> fl tensor \<Rightarrow> py_error + fl" where
  "ClipCriticLoss_forward F eps old_values new_values returns =
     (case tbinop (fl_sub (rnd F)) new_values old_values of
        Inl e \<Rightarrow> Inl e
      | Inr d \<Rightarrow>
     (case tbinop (fl_add (rnd F)) old_values
             (tmap (fl_clamp (rnd F (- eps)) (rnd F eps)) d) of
        Inl e \<Rightarrow> Inl e
      | Inr value_clipped \<Rightarrow>
     (case tbinop (fl_sub (rnd F)) value_clipped returns of
        Inl e \<Rightarrow> Inl e
      | Inr d1 \<Rightarrow>
     (let surrogate_1 = tmap (\<lambda>x. fl_mul (rnd F) x x) d1 in
     (case tbinop (fl_sub (rnd F)) new_values returns of
        Inl e \<Rightarrow> Inl e
      | Inr d2 \<Rightarrow>
     (let surrogate_2 = tmap (\<lambda>x. fl_mul (rnd F) x x) d2 in
     (case tbinop fl_max surrogate_1 surrogate_2 of
        Inl e \<Rightarrow> Inl e
      | Inr m \<Rightarrow> Inr (fl_mul (rnd F) (Fin (1/2)) (fl_mean F m)))))))))"

text \<open>
  Half the mean squared error of the new values against the returns, as the spec words
  it: \<open>0.5 * mean((new - returns)\<^sup>2)\<close>.
\<close>

definition half_mse :: "float_arith \<Rightarrow> fl tensor \<Rightarrow> fl tensor \<Rightarrow> py_error + fl" where
  "half_mse F new_values returns =
     (case tbinop (fl_sub (rnd F)) new_values returns of
        Inl e \<Rightarrow> Inl e
      | Inr d \<Rightarrow>
          Inr (fl_mul (rnd F) (Fin (1/2)) (fl_mean F (tmap (\<lambda>x. fl_mul (rnd F) x x) d))))"

subsection \<open>Spectral-entropy regularizer\<close>











subsection \<open>KL-divergence penalty\<close>


section \<open>Concrete data for the examples\<close>

text \<open>\<open>torch.tensor\<close> of a list of numbers: a tensor of one dimension.\<close>

definition vec :: "real list \<Rightarrow> real tensor" where
  "vec xs = Tensor [length xs] (\<lambda>i. case i of [k] \<Rightarrow> xs ! k | _ \<Rightarrow> 0)"

text \<open>A matrix from the list of its rows, all of the length of the first.\<close>

definition mat :: "real list list \<Rightarrow> real tensor" where
  "mat rows = Tensor [length rows, length (hd rows)] (\<lambda>i. rows ! hd i ! hd (tl i))"

text \<open>The same with floating-point entries.\<close>

definition fvec :: "real list \<Rightarrow> fl tensor" where
  "fvec xs = tmap Fin (vec xs)"

definition fmat :: "real list list \<Rightarrow> fl tensor" where
  "fmat rows = tmap Fin (mat rows)"

text \<open>A transition with a fixed state, action and log-probability.\<close>

definition transition :: "real \<Rightarrow> real \<Rightarrow> real \<Rightarrow> Memory" where
  "transition r d v =
     \<lparr>state = vec [0, 1], action = vec [1], action_log_prob = vec [-1],
      reward = r, done = d, value = v\<rparr>"

text \<open>A record of the auxiliary phase.\<close>

definition aux_transition :: MemoryAux where
  "aux_transition = \<lparr>aux_state = vec [0, 1], aux_actions = vec [2], aux_value = vec [3]\<rparr>"


section \<open>Properties of the estimator\<close>

lemma length_gae_loop:
  "length (gae_loop gamma lam ms gae nv acc) = length acc + length ms"
  by (induction ms arbitrary: gae nv acc) (simp_all add: Let_def)

lemma length_get_gae_advantages:
  "length (get_gae_advantages gamma lam episode) = length episode"
  by (simp add: get_gae_advantages_def length_gae_loop)

lemma length_concat_gae:
  "length (concat (map (get_gae_advantages gamma lam) episodes)) = length (concat episodes)"
  by (induction episodes) (simp_all add: length_get_gae_advantages)

text \<open>
  The scenario of the spec (section 8): two transitions with rewards 1 and 1, done flags
  0 and 1, values 0.5 and 0, \<open>\<gamma> = 0.99\<close> and \<open>\<lambda> = 0.95\<close> give the advantages
  1.4405 and 1.
\<close>

lemma gae_scenario:
  "get_gae_advantages (99/100) (19/20) [transition 1 0 (1/2), transition 1 1 0]
     = [14405/10000, 1]"
  by (simp add: get_gae_advantages_def transition_def Let_def)

text \<open>
  Claim C5. For value and advantage sequences of the same length \<open>n\<close> the returns
  computation yields a sequence of length \<open>n\<close> whose \<open>i\<close>-th entry is
  \<open>value[i] + advantage[i]\<close>; for sequences of different lengths it fails with a
  length error, and neither truncates nor pads.
\<close>

theorem get_returns_elementwise:
  "(length vs = length advs \<longrightarrow>
      (\<exists>rs. get_returns vs advs = Inr rs \<and> length rs = length vs \<and>
            (\<forall>i<length vs. rs ! i = vs ! i + advs ! i))) \<and>
   (length vs \<noteq> length advs \<longrightarrow> get_returns vs advs = Inl ValueError)"
  by (simp add: get_returns_def)

theorem get_returns_elementwise_witness:
  "get_returns [1, 2] [3, 4] = Inr [4, 6] \<and> get_returns [1] [] = Inl ValueError"
  using get_returns_elementwise [of "[1, 2]" "[3, 4]"] get_returns_elementwise [of "[1]" "[]"]
  by (simp add: get_returns_def)

text \<open>
  Claim C6. For an episode of one transition with reward \<open>r\<close>, value \<open>v\<close> and done
  flag \<open>d\<close> the advantage is \<open>r + \<gamma> * 0 * (1 - d) - v\<close>, with no trace-decay term;
  for the empty episode the result is the empty sequence, not an error.
\<close>

theorem gae_single_and_empty:
  "get_gae_advantages gamma lam [m] = [reward m + gamma * 0 * (1 - done m) - value m] \<and>
   get_gae_advantages gamma lam [] = []"
  by (simp add: get_gae_advantages_def Let_def)

section \<open>Properties of the experience dataset\<close>

lemma py_getitem_nat:
  "i < length xs \<Longrightarrow> py_getitem xs (int i) = Inr (xs ! i)"
  by (simp add: py_getitem_def)

text \<open>
  Claim C10. Constructing an \<open>ExperienceDataset\<close> from the empty list of episodes, or
  from a list whose episodes are all empty, raises at construction time: the unpacking of
  the zip of no transition into the six field collections fails.
\<close>

theorem ExperienceDataset_init_no_transition:
  "(\<forall>e \<in> set episodes. e = []) \<Longrightarrow> ExperienceDataset_init gamma lam episodes = Inl ValueError"
proof -
  assume "\<forall>e \<in> set episodes. e = []"
  then have "concat episodes = []" by simp
  then show ?thesis by (simp add: ExperienceDataset_init_def unzip_memories_def)
qed

theorem ExperienceDataset_init_no_transition_witness:
  "ExperienceDataset_init (99/100) (19/20) [] = Inl ValueError \<and>
   ExperienceDataset_init (99/100) (19/20) [[], []] = Inl ValueError"
  using ExperienceDataset_init_no_transition [of "[]" "99/100" "19/20"]
    ExperienceDataset_init_no_transition [of "[[], []]" "99/100" "19/20"]
  by simp

text \<open>
  Claim C1, as stated, for every non-empty list of episodes: it fails on the list of one
  empty episode, where the construction raises and there is no dataset.
\<close>

theorem ExperienceDataset_empty_episode_counterexample:
  "ExperienceDataset_init (99/100) (19/20) [[]] = Inl ValueError"
  by (simp add: ExperienceDataset_init_def unzip_memories_def)

text \<open>
  Claim C1, amended. For every list of episodes with at least one transition the
  construction succeeds, the length of the dataset is the sum of the lengths of the
  episodes, and for every index \<open>i\<close> below it the indexed access returns the flattened
  state, action and action log-probability, the reward, the done flag and the value of
  the \<open>i\<close>-th transition of the concatenated episodes, the \<open>i\<close>-th entry of the
  concatenation of the advantages of the episodes, and the return at \<open>i\<close>, the sum of
  that value and that advantage.
\<close>

theorem ExperienceDataset_flattening:
  assumes "concat episodes \<noteq> []"
  shows "\<exists>ds. ExperienceDataset_init gamma lam episodes = Inr ds \<and>
     ExperienceDataset_len ds = sum_list (map length episodes) \<and>
     (\<forall>i < sum_list (map length episodes).
        ExperienceDataset_getitem ds (int i) =
          Inr (flatten (state (concat episodes ! i)),
               flatten (action (concat episodes ! i)),
               flatten (action_log_prob (concat episodes ! i)),
               reward (concat episodes ! i),
               done (concat episodes ! i),
               value (concat episodes ! i),
               concat (map (get_gae_advantages gamma lam) episodes) ! i,
               value (concat episodes ! i)
                 + concat (map (get_gae_advantages gamma lam) episodes) ! i))"
proof -
  let ?flat = "concat episodes"
  let ?adv = "concat (map (get_gae_advantages gamma lam) episodes)"
  let ?ret = "map2 (+) (map value ?flat) ?adv"
  let ?ds = "\<lparr>ds_advantages = ?adv, ds_episodes = ?flat, ds_states = map state ?flat,
       ds_actions = map action ?flat, ds_actions_log_prob = map action_log_prob ?flat,
       ds_rewards = map reward ?flat, ds_done = map done ?flat, ds_values = map value ?flat,
       ds_returns = ?ret\<rparr>"
  have len: "length ?adv = length ?flat" by (rule length_concat_gae)
  have n: "sum_list (map length episodes) = length ?flat" by (simp add: length_concat)
  have init: "ExperienceDataset_init gamma lam episodes = Inr ?ds"
    using assms len
    by (simp add: ExperienceDataset_init_def unzip_memories_def get_returns_def Let_def)
  have l: "ExperienceDataset_len ?ds = sum_list (map length episodes)"
    by (simp add: ExperienceDataset_len_def n)
  have g: "ExperienceDataset_getitem ?ds (int i) =
          Inr (flatten (state (?flat ! i)), flatten (action (?flat ! i)),
               flatten (action_log_prob (?flat ! i)), reward (?flat ! i), done (?flat ! i),
               value (?flat ! i), ?adv ! i, value (?flat ! i) + ?adv ! i)"
    if "i < length ?flat" for i
    using that len by (simp add: ExperienceDataset_getitem_def py_getitem_nat)
  show ?thesis using init l g n by auto
qed

theorem ExperienceDataset_flattening_witness:
  "\<exists>ds. ExperienceDataset_init (99/100) (19/20)
           [[transition 1 0 (1/2), transition 1 1 0], [], [transition 2 1 3]] = Inr ds \<and>
     ExperienceDataset_len ds = 3 \<and>
     ExperienceDataset_getitem ds 0 =
       Inr (flatten (vec [0, 1]), flatten (vec [1]), flatten (vec [-1]),
            1, 0, 1/2, 14405/10000, 19405/10000) \<and>
     ExperienceDataset_getitem ds 2 =
       Inr (flatten (vec [0, 1]), flatten (vec [1]), flatten (vec [-1]), 2, 1, 3, -1, 2)"
proof -
  let ?eps = "[[transition 1 0 (1/2), transition 1 1 0], [], [transition 2 1 3]]"
  have ne: "concat ?eps \<noteq> []" by simp
  have a1: "get_gae_advantages (99/100) (19/20) [transition 2 1 3] = [-1]"
    by (simp add: get_gae_advantages_def transition_def Let_def)
  have a0: "get_gae_advantages (99/100) (19/20) [] = []"
    by (simp add: get_gae_advantages_def)
  from ExperienceDataset_flattening [OF ne, of "99/100" "19/20"]
  obtain ds where ds: "ExperienceDataset_init (99/100) (19/20) ?eps = Inr ds"
    and l: "ExperienceDataset_len ds = sum_list (map length ?eps)"
    and g: "\<And>i. i < sum_list (map length ?eps) \<Longrightarrow>
        ExperienceDataset_getitem ds (int i) =
          Inr (flatten (state (concat ?eps ! i)),
               flatten (action (concat ?eps ! i)),
               flatten (action_log_prob (concat ?eps ! i)),
               reward (concat ?eps ! i),
               done (concat ?eps ! i),
               value (concat ?eps ! i),
               concat (map (get_gae_advantages (99/100) (19/20)) ?eps) ! i,
               value (concat ?eps ! i)
                 + concat (map (get_gae_advantages (99/100) (19/20)) ?eps) ! i)"
    by blast
  have g0: "ExperienceDataset_getitem ds 0 =
       Inr (flatten (vec [0, 1]), flatten (vec [1]), flatten (vec [-1]),
            1, 0, 1/2, 14405/10000, 19405/10000)"
    using g [of 0] by (simp add: gae_scenario a0 a1) (simp add: transition_def)
  have g2: "ExperienceDataset_getitem ds 2 =
       Inr (flatten (vec [0, 1]), flatten (vec [1]), flatten (vec [-1]), 2, 1, 3, -1, 2)"
    using g [of 2] by (simp add: gae_scenario a0 a1) (simp add: transition_def)
  show ?thesis using ds l g0 g2 by simp
qed

section \<open>Properties of the auxiliary dataset\<close>

lemma view_rows_shape:
  "view_rows c t = Inr t' \<Longrightarrow> shape t' = [numel t div c, c]"
  by (auto simp: view_rows_def split: if_splits)

lemma aux_init_Inr:
  assumes "ExperienceAuxDataset_init episodes_aux alp = Inr ds"
  shows "\<exists>stacked st' rs r' vs v'.
      episodes_aux \<noteq> [] \<and>
      stack (map aux_state episodes_aux) = Inr stacked \<and>
      view_rows (last (shape stacked)) stacked = Inr st' \<and>
      stack (map aux_actions episodes_aux) = Inr rs \<and> view_rows 1 rs = Inr r' \<and>
      stack (map aux_value episodes_aux) = Inr vs \<and> view_rows 1 vs = Inr v' \<and>
      ds = \<lparr>xa_episodes_aux = episodes_aux, xa_states = st', xa_returns = r',
             xa_old_values = v', xa_action_log_probs = alp\<rparr>"
proof -
  have ne: "episodes_aux \<noteq> []"
    using assms by (auto simp: ExperienceAuxDataset_init_def unzip_aux_def)
  note d = ExperienceAuxDataset_init_def unzip_aux_def
  obtain stacked where 1: "stack (map aux_state episodes_aux) = Inr stacked"
    using assms ne by (cases "stack (map aux_state episodes_aux)") (simp_all add: d)
  obtain st' where 2: "view_rows (last (shape stacked)) stacked = Inr st'"
    using assms ne 1 by (cases "view_rows (last (shape stacked)) stacked") (simp_all add: d)
  obtain rs where 3: "stack (map aux_actions episodes_aux) = Inr rs"
    using assms ne 1 2 by (cases "stack (map aux_actions episodes_aux)") (simp_all add: d)
  obtain r' where 4: "view_rows 1 rs = Inr r'"
    using assms ne 1 2 3 by (cases "view_rows 1 rs") (simp_all add: d)
  obtain vs where 5: "stack (map aux_value episodes_aux) = Inr vs"
    using assms ne 1 2 3 4 by (cases "stack (map aux_value episodes_aux)") (simp_all add: d)
  obtain v' where 6: "view_rows 1 vs = Inr v'"
    using assms ne 1 2 3 4 5 by (cases "view_rows 1 vs") (simp_all add: d)
  have "ds = \<lparr>xa_episodes_aux = episodes_aux, xa_states = st', xa_returns = r',
             xa_old_values = v', xa_action_log_probs = alp\<rparr>"
    using assms ne 1 2 3 4 5 6 by (simp add: d)
  with ne 1 2 3 4 5 6 show ?thesis by blast
qed

lemma aux_init_shape:
  assumes "ExperienceAuxDataset_init episodes_aux alp = Inr ds"
  shows "\<exists>n c. shape (xa_states ds) = [n, c]"
proof -
  from aux_init_Inr [OF assms] obtain stacked st' where
    "view_rows (last (shape stacked)) stacked = Inr st'" and "xa_states ds = st'"
    by auto
  then show ?thesis using view_rows_shape by blast
qed

lemma aux_init_log_probs:
  assumes "ExperienceAuxDataset_init episodes_aux alp = Inr ds"
  shows "xa_action_log_probs ds = alp"
  using aux_init_Inr [OF assms] by auto

lemma aux_init_from_parts:
  assumes "episodes_aux \<noteq> []"
    and "stack (map aux_state episodes_aux) = Inr stacked"
    and "view_rows (last (shape stacked)) stacked = Inr st'"
    and "stack (map aux_actions episodes_aux) = Inr rs" and "view_rows 1 rs = Inr r'"
    and "stack (map aux_value episodes_aux) = Inr vs" and "view_rows 1 vs = Inr v'"
  shows "ExperienceAuxDataset_init episodes_aux alp =
     Inr \<lparr>xa_episodes_aux = episodes_aux, xa_states = st', xa_returns = r',
             xa_old_values = v', xa_action_log_probs = alp\<rparr>"
  using assms by (simp add: ExperienceAuxDataset_init_def unzip_aux_def)

lemma aux_init_independent:
  assumes "ExperienceAuxDataset_init episodes_aux None = Inr ds"
  shows "ExperienceAuxDataset_init episodes_aux alp = Inr (ds\<lparr>xa_action_log_probs := alp\<rparr>)"
proof -
  from aux_init_Inr [OF assms] obtain stacked st' rs r' vs v' where
      p: "episodes_aux \<noteq> []"
      "stack (map aux_state episodes_aux) = Inr stacked"
      "view_rows (last (shape stacked)) stacked = Inr st'"
      "stack (map aux_actions episodes_aux) = Inr rs" "view_rows 1 rs = Inr r'"
      "stack (map aux_value episodes_aux) = Inr vs" "view_rows 1 vs = Inr v'"
    and ds: "ds = \<lparr>xa_episodes_aux = episodes_aux, xa_states = st', xa_returns = r',
             xa_old_values = v', xa_action_log_probs = None\<rparr>"
    by blast
  show ?thesis
    unfolding aux_init_from_parts [OF p] ds by simp
qed

lemma aux_getitem_None:
  assumes "xa_action_log_probs ds = None"
  shows "\<exists>e. ExperienceAuxDataset_getitem ds idx = Inl e"
proof (cases "tensor_getitem (xa_states ds) idx")
  case (Inl e) then show ?thesis by (simp add: ExperienceAuxDataset_getitem_def)
next
  case s: (Inr s)
  show ?thesis
  proof (cases "tensor_getitem (xa_returns ds) idx")
    case (Inl e) with s show ?thesis by (simp add: ExperienceAuxDataset_getitem_def)
  next
    case r: (Inr r)
    show ?thesis
    proof (cases "tensor_getitem (xa_old_values ds) idx")
      case (Inl e) with s r show ?thesis by (simp add: ExperienceAuxDataset_getitem_def)
    next
      case (Inr v) with s r assms show ?thesis by (simp add: ExperienceAuxDataset_getitem_def)
    qed
  qed
qed

lemma stack_same_shape:
  assumes "ts \<noteq> []" "\<forall>u \<in> set ts. shape u = sh"
  shows "\<exists>t. stack ts = Inr t \<and> shape t = length ts # sh"
  using assms by (cases ts) (auto simp: stack_def)

lemma prod_list_last_dvd:
  assumes "sh \<noteq> []"
  shows "prod_list sh mod last sh = (0::nat)"
proof -
  have "prod_list (butlast sh @ [last sh]) = prod_list (butlast sh) * last sh" by simp
  then have "prod_list sh = prod_list (butlast sh) * last sh" using assms by simp
  then show ?thesis by simp
qed

lemma view_rows_ok:
  "c \<noteq> 0 \<Longrightarrow> numel t mod c = 0 \<Longrightarrow> \<exists>t'. view_rows c t = Inr t'"
  by (simp add: view_rows_def)

lemma aux_init_succeeds:
  assumes ne: "episodes_aux \<noteq> []"
    and s: "\<forall>m \<in> set episodes_aux. shape (aux_state m) = ss"
    and l: "ss \<noteq> [] \<longrightarrow> last ss \<noteq> 0"
    and r: "\<forall>m \<in> set episodes_aux. shape (aux_actions m) = rs"
    and v: "\<forall>m \<in> set episodes_aux. shape (aux_value m) = vs"
  shows "\<exists>ds. ExperienceAuxDataset_init episodes_aux alp = Inr ds"
proof -
  let ?n = "length episodes_aux"
  have n0: "?n \<noteq> 0" using ne by simp
  obtain st where st: "stack (map aux_state episodes_aux) = Inr st" "shape st = ?n # ss"
    using stack_same_shape [of "map aux_state episodes_aux" ss] ne s by auto
  obtain rt where rt: "stack (map aux_actions episodes_aux) = Inr rt"
    using stack_same_shape [of "map aux_actions episodes_aux" rs] ne r by auto
  obtain vt where vt: "stack (map aux_value episodes_aux) = Inr vt"
    using stack_same_shape [of "map aux_value episodes_aux" vs] ne v by auto
  have c0: "last (shape st) \<noteq> 0" using st(2) l n0 by (cases ss) auto
  have "numel st mod last (shape st) = 0"
    unfolding numel_def by (rule prod_list_last_dvd) (simp add: st(2))
  from view_rows_ok [OF c0 this]
  obtain st' where st': "view_rows (last (shape st)) st = Inr st'" ..
  have "\<exists>t'. view_rows 1 rt = Inr t'" by (rule view_rows_ok) simp_all
  then obtain rt' where rt': "view_rows 1 rt = Inr rt'" ..
  have "\<exists>t'. view_rows 1 vt = Inr t'" by (rule view_rows_ok) simp_all
  then obtain vt' where vt': "view_rows 1 vt = Inr vt'" ..
  from aux_init_from_parts [OF ne st(1) st' rt rt' vt vt', of alp]
  show ?thesis by (rule exI)
qed

text \<open>
  Claim C9. An \<open>ExperienceAuxDataset\<close> constructed with \<open>action_log_probs\<close> left at
  its default \<open>None\<close> is constructed as with any other value of the argument (and is
  constructed, for a non-empty list of records whose states, returns and old values each
  have one shape, the last dimension of the states not of size 0); its length can be
  queried; every indexed access raises, since \<open>__getitem__\<close> subscripts the absent
  collection; and the construction checks no length of the argument: with any supplied
  value it succeeds as well and stores the value.
\<close>

theorem ExperienceAuxDataset_default_log_probs:
  "(episodes_aux \<noteq> [] \<and> (\<forall>m \<in> set episodes_aux. shape (aux_state m) = ss) \<and>
      (ss \<noteq> [] \<longrightarrow> last ss \<noteq> 0) \<and>
      (\<forall>m \<in> set episodes_aux. shape (aux_actions m) = rs) \<and>
      (\<forall>m \<in> set episodes_aux. shape (aux_value m) = vs)
      \<longrightarrow> (\<exists>ds. ExperienceAuxDataset_init episodes_aux None = Inr ds)) \<and>
   (\<forall>ds. ExperienceAuxDataset_init episodes_aux None = Inr ds \<longrightarrow>
      (\<exists>n. ExperienceAuxDataset_len ds = Inr n) \<and>
      (\<forall>idx. \<exists>e. ExperienceAuxDataset_getitem ds idx = Inl e) \<and>
      (\<forall>alp. ExperienceAuxDataset_init episodes_aux alp
                = Inr (ds\<lparr>xa_action_log_probs := alp\<rparr>)))"
proof (intro conjI impI allI)
  assume "episodes_aux \<noteq> [] \<and> (\<forall>m \<in> set episodes_aux. shape (aux_state m) = ss) \<and>
      (ss \<noteq> [] \<longrightarrow> last ss \<noteq> 0) \<and>
      (\<forall>m \<in> set episodes_aux. shape (aux_actions m) = rs) \<and>
      (\<forall>m \<in> set episodes_aux. shape (aux_value m) = vs)"
  then show "\<exists>ds. ExperienceAuxDataset_init episodes_aux None = Inr ds"
    by (intro aux_init_succeeds [of episodes_aux ss rs vs None]) simp_all
next
  fix ds assume a: "ExperienceAuxDataset_init episodes_aux None = Inr ds"
  from aux_init_shape [OF a] show "\<exists>n. ExperienceAuxDataset_len ds = Inr n"
    by (auto simp: ExperienceAuxDataset_len_def)
next
  fix ds idx assume a: "ExperienceAuxDataset_init episodes_aux None = Inr ds"
  show "\<exists>e. ExperienceAuxDataset_getitem ds idx = Inl e"
    using aux_getitem_None [OF aux_init_log_probs [OF a]] .
next
  fix ds alp assume a: "ExperienceAuxDataset_init episodes_aux None = Inr ds"
  show "ExperienceAuxDataset_init episodes_aux alp = Inr (ds\<lparr>xa_action_log_probs := alp\<rparr>)"
    using aux_init_independent [OF a] .
qed

theorem ExperienceAuxDataset_default_log_probs_witness:
  "\<exists>ds. ExperienceAuxDataset_init [aux_transition] None = Inr ds \<and>
     (\<exists>n. ExperienceAuxDataset_len ds = Inr n) \<and>
     (\<exists>e. ExperienceAuxDataset_getitem ds 0 = Inl e) \<and>
     ExperienceAuxDataset_init [aux_transition] (Some (vec []))
       = Inr (ds\<lparr>xa_action_log_probs := Some (vec [])\<rparr>)"
proof -
  note t = ExperienceAuxDataset_default_log_probs [of "[aux_transition]" "[2]" "[1]" "[1]"]
  have pre: "[aux_transition] \<noteq> [] \<and>
      (\<forall>m \<in> set [aux_transition]. shape (aux_state m) = [2]) \<and>
      ([2::nat] \<noteq> [] \<longrightarrow> last [2::nat] \<noteq> 0) \<and>
      (\<forall>m \<in> set [aux_transition]. shape (aux_actions m) = [1]) \<and>
      (\<forall>m \<in> set [aux_transition]. shape (aux_value m) = [1])"
    by (simp add: aux_transition_def vec_def)
  from t pre obtain ds where ds: "ExperienceAuxDataset_init [aux_transition] None = Inr ds"
    by blast
  from t ds have "(\<exists>n. ExperienceAuxDataset_len ds = Inr n) \<and>
      (\<forall>idx. \<exists>e. ExperienceAuxDataset_getitem ds idx = Inl e) \<and>
      (\<forall>alp. ExperienceAuxDataset_init [aux_transition] alp
                = Inr (ds\<lparr>xa_action_log_probs := alp\<rparr>))"
    by blast
  with ds show ?thesis by blast
qed

section \<open>Properties of the tensor operations\<close>

lemma mem_indices: "i \<in> set (indices sh) \<longleftrightarrow> valid_index sh i"
proof (induction sh arbitrary: i)
  case Nil
  show ?case by (auto simp: valid_index_def)
next
  case (Cons n ns)
  show ?case
  proof (cases i)
    case Nil
    then show ?thesis by (auto simp: valid_index_def)
  next
    case (Cons k ks)
    then show ?thesis using Cons.IH [of ks] by (auto simp: valid_index_def)
  qed
qed

lemma length_indices: "length (indices sh) = prod_list sh"
proof (induction sh)
  case Nil show ?case by simp
next
  case (Cons n ns)
  have "length (indices (n # ns)) = sum_list (map (\<lambda>i. prod_list ns) [0..<n])"
    by (simp add: length_concat comp_def Cons.IH)
  also have "\<dots> = n * prod_list ns" by (simp add: sum_list_triv)
  finally show ?case by simp
qed

lemma operand_index_rev_id:
  "list_all2 (<) i sh \<Longrightarrow> operand_index_rev sh i = i"
proof (induction sh arbitrary: i)
  case Nil then show ?case by simp
next
  case (Cons d ds)
  then obtain k ks where i: "i = k # ks" and k: "k < d" and ks: "list_all2 (<) ks ds"
    by (cases i) auto
  from k have "(if d = 1 then 0 else k) = k" by auto
  with Cons.IH [OF ks] i show ?case by simp
qed

lemma operand_index_rev_valid_left:
  "broadcast_rev a b = Some s \<Longrightarrow> list_all2 (<) i s \<Longrightarrow>
     list_all2 (<) (operand_index_rev a i) a"
proof (induction a b arbitrary: s i rule: broadcast_rev.induct)
  case (1 ys)
  show ?case by simp
next
  case (2 x xs)
  then have "list_all2 (<) i (x # xs)" by simp
  then show ?case by (simp add: operand_index_rev_id)
next
  case (3 x xs y ys)
  from "3.prems"(1) obtain z s' where s: "s = z # s'" and r: "broadcast_rev xs ys = Some s'"
    and z: "x \<noteq> 1 \<longrightarrow> z = x"
    by (auto split: if_splits)
  from "3.prems"(2) s obtain k ks where i: "i = k # ks" and k: "k < z"
    and ks: "list_all2 (<) ks s'"
    by (cases i) auto
  have tl: "list_all2 (<) (operand_index_rev xs ks) xs"
  proof (cases "x = y \<or> y = 1")
    case True show ?thesis by (rule "3.IH"(1) [OF True r ks])
  next
    case False
    with "3.prems"(1) have x1: "x = 1" by (auto split: if_splits)
    show ?thesis by (rule "3.IH"(2) [OF False x1 r ks])
  qed
  have "(if x = 1 then 0 else k) < x" using z k by auto
  with tl i show ?case by simp
qed

lemma operand_index_rev_valid_right:
  "broadcast_rev a b = Some s \<Longrightarrow> list_all2 (<) i s \<Longrightarrow>
     list_all2 (<) (operand_index_rev b i) b"
proof (induction a b arbitrary: s i rule: broadcast_rev.induct)
  case (1 ys)
  then have "list_all2 (<) i ys" by simp
  then show ?case by (simp add: operand_index_rev_id)
next
  case (2 x xs)
  show ?case by simp
next
  case (3 x xs y ys)
  from "3.prems"(1) obtain z s' where s: "s = z # s'" and r: "broadcast_rev xs ys = Some s'"
    and z: "y \<noteq> 1 \<longrightarrow> z = y"
    by (auto split: if_splits)
  from "3.prems"(2) s obtain k ks where i: "i = k # ks" and k: "k < z"
    and ks: "list_all2 (<) ks s'"
    by (cases i) auto
  have tl: "list_all2 (<) (operand_index_rev ys ks) ys"
  proof (cases "x = y \<or> y = 1")
    case True show ?thesis by (rule "3.IH"(1) [OF True r ks])
  next
    case False
    with "3.prems"(1) have x1: "x = 1" by (auto split: if_splits)
    show ?thesis by (rule "3.IH"(2) [OF False x1 r ks])
  qed
  have "(if y = 1 then 0 else k) < y" using z k by auto
  with tl i show ?case by simp
qed

lemma operand_index_valid:
  assumes "broadcast_shapes a b = Some s" "valid_index s i"
  shows "valid_index a (operand_index a i)" "valid_index b (operand_index b i)"
proof -
  from assms(1) obtain r where r: "broadcast_rev (rev a) (rev b) = Some r" and s: "s = rev r"
    by (auto simp: broadcast_shapes_def)
  from assms(2) s have v: "list_all2 (<) (rev i) r"
    by (simp add: valid_index_def list_all2_rev1)
  show "valid_index a (operand_index a i)"
    using operand_index_rev_valid_left [OF r v]
    by (simp add: valid_index_def operand_index_def list_all2_rev1)
  show "valid_index b (operand_index b i)"
    using operand_index_rev_valid_right [OF r v]
    by (simp add: valid_index_def operand_index_def list_all2_rev1)
qed

lemma broadcast_rev_same: "broadcast_rev s s = Some s"
  by (induction s) simp_all

lemma broadcast_shapes_same: "broadcast_shapes s s = Some s"
  by (simp add: broadcast_shapes_def broadcast_rev_same)

lemma operand_index_same: "valid_index s i \<Longrightarrow> operand_index s i = i"
  by (simp add: valid_index_def operand_index_def operand_index_rev_id list_all2_rev1)

lemma tsum_cong:
  assumes "shape t = shape u" "\<And>i. valid_index (shape t) i \<Longrightarrow> elem t i = elem u i"
  shows "tsum t = tsum u"
proof -
  have "map (elem t) (indices (shape t)) = map (elem u) (indices (shape t))"
    by (rule map_cong) (simp_all add: mem_indices assms(2))
  then show ?thesis by (simp only: tsum_def assms(1) [symmetric])
qed

lemma tbinop_Inr:
  assumes "tbinop f a b = Inr c"
  shows "broadcast_shapes (shape a) (shape b) = Some (shape c)"
    and "elem c = (\<lambda>i. f (elem a (operand_index (shape a) i)) (elem b (operand_index (shape b) i)))"
  using assms by (auto simp: tbinop_def split: option.splits)

lemma tbinop_same_shape:
  assumes "shape a = shape b"
  shows "tbinop f a b = Inr (Tensor (shape a)
     (\<lambda>i. f (elem a (operand_index (shape a) i)) (elem b (operand_index (shape a) i))))"
  using assms by (simp add: tbinop_def broadcast_shapes_same)

lemma indices_1: "indices [n] = map (\<lambda>i. [i]) [0..<n]"
  by (simp add: comp_def flip: map_concat)

lemma valid_index_2: "valid_index [B, A] i \<longleftrightarrow> (\<exists>b a. i = [b, a] \<and> b < B \<and> a < A)"
  by (auto simp: valid_index_def list_all2_Cons2)

lemma valid_index_butlast:
  assumes "valid_index (sh @ [n]) i"
  shows "valid_index sh (butlast i)"
proof -
  from assms have "list_all2 (<) i (sh @ [n])" by (simp add: valid_index_def)
  then obtain us vs where i: "i = us @ vs" and u: "list_all2 (<) us sh" and v: "list_all2 (<) vs [n]"
    by (auto simp: list_all2_append2)
  from v obtain k where "vs = [k]" by (auto simp: list_all2_Cons2)
  with i u show ?thesis by (simp add: valid_index_def butlast_append)
qed

lemma indices_2:
  "indices [B, A] = concat (map (\<lambda>b. map (\<lambda>a. [b, a]) [0..<A]) [0..<B])"
  by (simp add: comp_def flip: map_concat)



lemma broadcast_rev_zero:
  "broadcast_rev a b = Some s \<Longrightarrow> 0 \<in> set s \<longleftrightarrow> 0 \<in> set a \<or> 0 \<in> set b"
proof (induction a b arbitrary: s rule: broadcast_rev.induct)
  case (1 ys) then show ?case by simp
next
  case (2 x xs) then show ?case by simp
next
  case (3 x xs y ys)
  show ?case
  proof (cases "x = y \<or> y = 1")
    case True
    with "3.prems" obtain s' where s: "s = x # s'" and r: "broadcast_rev xs ys = Some s'"
      by auto
    from "3.IH"(1) [OF True r] s True show ?thesis by auto
  next
    case False
    with "3.prems" have x1: "x = 1" by (auto split: if_splits)
    with False "3.prems" obtain s' where s: "s = y # s'" and r: "broadcast_rev xs ys = Some s'"
      by auto
    from "3.IH"(2) [OF False x1 r] s x1 show ?thesis by auto
  qed
qed

lemma prod_list_zero_nat: "prod_list (xs :: nat list) = 0 \<longleftrightarrow> 0 \<in> set xs"
  by (induction xs) auto

lemma broadcast_shapes_zero:
  assumes "broadcast_shapes a b = Some s"
  shows "prod_list s = 0 \<longleftrightarrow> prod_list a = 0 \<or> prod_list b = 0"
proof -
  from assms obtain r where r: "broadcast_rev (rev a) (rev b) = Some r" and s: "s = rev r"
    by (auto simp: broadcast_shapes_def)
  from broadcast_rev_zero [OF r] s show ?thesis by (simp add: prod_list_zero_nat)
qed

lemma tbinop_shapes:
  "broadcast_shapes (shape a) (shape b) = Some q \<Longrightarrow>
   tbinop f a b = Inr (Tensor q
     (\<lambda>i. f (elem a (operand_index (shape a) i)) (elem b (operand_index (shape b) i))))"
  "broadcast_shapes (shape a) (shape b) = None \<Longrightarrow> tbinop f a b = Inl RuntimeError"
  by (simp_all add: tbinop_def)

section \<open>Properties of the spectral-entropy regularizer\<close>
























section \<open>Properties of the formats binary32 and binary64\<close>

lemma rhe_near: "of_int m \<le> y \<Longrightarrow> y - of_int m < 1/2 \<Longrightarrow> rhe y = m"
proof -
  assume a: "of_int m \<le> y" and b: "y - of_int m < 1/2"
  have "\<lfloor>y\<rfloor> = m" using a b by (simp add: floor_eq_iff)
  with b show ?thesis by (simp add: rhe_def Let_def)
qed

lemma rhe_ge_floor: "\<lfloor>y\<rfloor> \<le> rhe y"
  by (simp add: rhe_def Let_def)

lemma floor_log2:
  assumes "2 powr of_int k \<le> a" "a < 2 powr of_int (k + 1)"
  shows "\<lfloor>log 2 a\<rfloor> = k"
proof -
  have p: "0 < a" using assms(1) powr_gt_zero [of 2 "of_int k"] by linarith
  have "of_int k \<le> log 2 a" using assms(1) p by (simp add: le_log_iff)
  moreover have "log 2 a < of_int k + 1" using assms(2) p by (simp add: log_less_iff)
  ultimately show ?thesis by (simp add: floor_eq_iff)
qed

lemma nearest_near:
  assumes "2 powr of_int k \<le> \<bar>x\<bar>" "\<bar>x\<bar> < 2 powr of_int (k + 1)" "emin \<le> k"
    and "of_int m \<le> x / 2 powr of_int (k - (int p - 1))"
    and "x / 2 powr of_int (k - (int p - 1)) - of_int m < 1/2"
  shows "nearest p emin x = of_int m * 2 powr of_int (k - (int p - 1))"
proof -
  have nz: "x \<noteq> 0" using assms(1) powr_gt_zero [of 2 "of_int k"] by auto
  have fl: "\<lfloor>log 2 \<bar>x\<bar>\<rfloor> = k" by (rule floor_log2 [OF assms(1,2)])
  have mx: "max k emin = k" using assms(3) by simp
  have "rhe (x / 2 powr of_int (k - (int p - 1))) = m" by (rule rhe_near [OF assms(4,5)])
  then show ?thesis using nz by (simp add: nearest_def Let_def fl mx)
qed

text \<open>Rounding in the binade of \<open>1 / 2 ^ n\<close>.\<close>

lemma nearest_small:
  assumes "1 / 2 ^ n \<le> \<bar>x\<bar>" "\<bar>x\<bar> < 2 / 2 ^ n" "emin \<le> - int n" "0 < p"
    and "of_int m \<le> x * 2 ^ (n + (p - 1))" "x * 2 ^ (n + (p - 1)) - of_int m < 1/2"
  shows "nearest p emin x = of_int m / 2 ^ (n + (p - 1))"
proof -
  let ?k = "- int n"
  have p1: "(2::real) powr of_int ?k = 1 / 2 ^ n"
    by (simp add: powr_minus powr_realpow divide_inverse)
  have p2: "(2::real) powr of_int (?k + 1) = 2 / 2 ^ n"
  proof -
    have "(2::real) powr of_int (?k + 1) = 2 powr (- real n) * 2 powr 1"
      by (simp only: powr_add [symmetric]) simp
    then show ?thesis by (simp add: powr_minus powr_realpow divide_inverse)
  qed
  have p3: "(2::real) powr of_int (?k - (int p - 1)) = 1 / 2 ^ (n + (p - 1))"
  proof -
    have "of_int (?k - (int p - 1)) = - real (n + (p - 1))" using assms(4) by simp
    then show ?thesis by (simp only: powr_minus powr_realpow zero_less_numeral divide_inverse mult_1)
  qed
  have d: "x / 2 powr of_int (?k - (int p - 1)) = x * 2 ^ (n + (p - 1))" by (simp only: p3) simp
  have "nearest p emin x = of_int m * 2 powr of_int (?k - (int p - 1))"
  proof (rule nearest_near)
    show "2 powr of_int ?k \<le> \<bar>x\<bar>" using assms(1) by (simp only: p1)
    show "\<bar>x\<bar> < 2 powr of_int (?k + 1)" using assms(2) by (simp only: p2)
    show "emin \<le> ?k" by (rule assms(3))
    show "of_int m \<le> x / 2 powr of_int (?k - (int p - 1))" using assms(5) by (simp only: d)
    show "x / 2 powr of_int (?k - (int p - 1)) - of_int m < 1/2" using assms(6) by (simp only: d)
  qed
  then show ?thesis by (simp only: p3) simp
qed

text \<open>Rounding in the binade of \<open>2 ^ n\<close>, below \<open>2 ^ p\<close>.\<close>

lemma nearest_large:
  assumes "2 ^ n \<le> \<bar>x\<bar>" "\<bar>x\<bar> < 2 * 2 ^ n" "emin \<le> int n" "n \<le> p - 1"
    and "of_int m \<le> x * 2 ^ (p - 1 - n)" "x * 2 ^ (p - 1 - n) - of_int m < 1/2"
    and "0 < p"
  shows "nearest p emin x = of_int m / 2 ^ (p - 1 - n)"
proof -
  let ?k = "int n"
  have p1: "(2::real) powr of_int ?k = 2 ^ n" by (simp add: powr_realpow)
  have p2: "(2::real) powr of_int (?k + 1) = 2 * 2 ^ n" by (simp add: powr_add powr_realpow)
  have p3: "(2::real) powr of_int (?k - (int p - 1)) = 1 / 2 ^ (p - 1 - n)"
  proof -
    have "int (p - 1 - n) = int p - 1 - int n" using assms(4,7) by linarith
    then have "of_int (?k - (int p - 1)) = - real_of_int (int (p - 1 - n))" by simp
    then have "of_int (?k - (int p - 1)) = - real (p - 1 - n)" by simp
    then show ?thesis by (simp only: powr_minus powr_realpow zero_less_numeral divide_inverse mult_1)
  qed
  have d: "x / 2 powr of_int (?k - (int p - 1)) = x * 2 ^ (p - 1 - n)" by (simp only: p3) simp
  have "nearest p emin x = of_int m * 2 powr of_int (?k - (int p - 1))"
  proof (rule nearest_near)
    show "2 powr of_int ?k \<le> \<bar>x\<bar>" using assms(1) by (simp only: p1)
    show "\<bar>x\<bar> < 2 powr of_int (?k + 1)" using assms(2) by (simp only: p2)
    show "emin \<le> ?k" by (rule assms(3))
    show "of_int m \<le> x / 2 powr of_int (?k - (int p - 1))" using assms(5) by (simp only: d)
    show "x / 2 powr of_int (?k - (int p - 1)) - of_int m < 1/2" using assms(6) by (simp only: d)
  qed
  then show ?thesis by (simp only: p3) simp
qed

lemma round32_in_range:
  assumes "\<bar>x\<bar> < 2 ^ 24"
  shows "round32 x = Fin (nearest32 x)"
proof -
  have "(2::real) ^ 24 \<le> 2 ^ 128 - 2 ^ 103" by simp
  with assms have "\<bar>x\<bar> < 2 ^ 128 - 2 ^ 103" by (rule less_le_trans)
  then have "\<not> 2 ^ 128 - 2 ^ 103 \<le> x" "\<not> x \<le> - (2 ^ 128 - 2 ^ 103)" by linarith+
  then show ?thesis by (simp only: round32_def if_False)
qed

lemma round32_small:
  assumes "1 / 2 ^ n \<le> \<bar>x\<bar>" "\<bar>x\<bar> < 2 / 2 ^ n" "n \<le> 126"
    and "of_int m \<le> x * 2 ^ (n + 23)" "x * 2 ^ (n + 23) - of_int m < 1/2"
  shows "round32 x = Fin (of_int m / 2 ^ (n + 23))"
proof -
  have "nearest 24 (- 126) x = of_int m / 2 ^ (n + (24 - 1))"
    by (rule nearest_small) (use assms in simp_all)
  then have n: "nearest32 x = of_int m / 2 ^ (n + 23)" by (simp add: nearest32_def)
  have "(2::real) / 2 ^ n \<le> 2" by (simp add: divide_le_eq)
  with assms(2) have "\<bar>x\<bar> < 2 ^ 24" by simp
  from round32_in_range [OF this] n show ?thesis by simp
qed

lemma round32_large:
  assumes "2 ^ n \<le> \<bar>x\<bar>" "\<bar>x\<bar> < 2 * 2 ^ n" "n \<le> 23"
    and "of_int m \<le> x * 2 ^ (23 - n)" "x * 2 ^ (23 - n) - of_int m < 1/2"
  shows "round32 x = Fin (of_int m / 2 ^ (23 - n))"
proof -
  have "nearest 24 (- 126) x = of_int m / 2 ^ (24 - 1 - n)"
    by (rule nearest_large) (use assms in simp_all)
  then have n: "nearest32 x = of_int m / 2 ^ (23 - n)" by (simp add: nearest32_def)
  have "(2::real) ^ n \<le> 2 ^ 23" using assms(3) by (intro power_increasing) simp_all
  with assms(2) have "\<bar>x\<bar> < 2 ^ 24" by simp
  from round32_in_range [OF this] n show ?thesis by simp
qed

text \<open>Numbers of the two formats, and two roundings that are not exact.\<close>

lemma nearest64_half: "nearest64 (1/2) = 1/2"
  using nearest_small [of 1 "1/2" "- 1022" 53 "2^52"] by (simp add: nearest64_def)

lemma nearest64_3_2: "nearest64 (3/2) = 3/2"
  using nearest_large [of 0 "3/2" "- 1022" 53 "3 * 2^51"] by (simp add: nearest64_def)

lemma round32_0: "round32 0 = Fin 0"
  by (simp add: round32_def nearest32_def nearest_def)

lemma round32_half: "round32 (1/2) = Fin (1/2)"
  using round32_small [of 1 "1/2" "2^23"] by simp

lemma round32_mhalf: "round32 (- (1/2)) = Fin (- (1/2))"
  using round32_small [of 1 "-(1/2)" "-(2^23)"] by simp

lemma round32_cancel: "round32 (1/2^30 - 1/2) = Fin (- (1/2))"
  using round32_small [of 2 "1/2^30 - 1/2" "-(2^24)"] by simp

lemma round32_m30: "round32 (- (1/2^30)) = Fin (- (1/2^30))"
  using round32_small [of 30 "-(1/2^30)" "-(2^23)"] by simp

lemma round32_60: "round32 (1/2^60) = Fin (1/2^60)"
  using round32_small [of 60 "1/2^60" "2^23"] by simp

lemma round32_61: "round32 (1/2^61) = Fin (1/2^61)"
  using round32_small [of 61 "1/2^61" "2^23"] by simp

lemma round32_128: "round32 128 = Fin 128"
  using round32_large [of 7 128 "2^23"] by simp

lemma round32_1: "round32 1 = Fin 1"
  using round32_large [of 0 1 "2^23"] by simp

lemma round32_exp_128: "round32 (exp 128) = PInf"
proof -
  have "(2::real) \<le> exp 1" using exp_ge_add_one_self [of 1] by simp
  then have "(2::real) ^ 128 \<le> exp 1 ^ 128" by (rule power_mono) simp
  also have "\<dots> = exp (of_nat 128 * 1)" by (simp only: exp_of_nat_mult)
  finally have "(2::real) ^ 128 \<le> exp 128" by simp
  then have "(2::real) ^ 128 - 2 ^ 103 \<le> exp 128" by simp
  then show ?thesis by (simp only: round32_def if_True)
qed

lemma round32_3_2: "round32 (3/2) = Fin (3/2)"
  using round32_large [of 0 "3/2" "3 * 2^22"] by simp

lemma round32_9_4: "round32 (9/4) = Fin (9/4)"
  using round32_large [of 1 "9/4" "9 * 2^20"] by simp

lemma round32_9_8: "round32 (9/8) = Fin (9/8)"
  using round32_large [of 0 "9/8" "9 * 2^20"] by simp

lemma round32_30: "round32 (1/2^30) = Fin (1/2^30)"
  using round32_small [of 30 "1/2^30" "2^23"] by simp

lemma round32_2: "round32 2 = Fin 2"
  using round32_large [of 1 2 "2^23"] by simp

lemma round32_exp_half: "round32 (exp (1/2)) = Fin (nearest32 (exp (1/2)))"
proof (rule round32_in_range)
  have "exp (1/2 :: real) \<le> exp 1" by simp
  also have "\<dots> \<le> 3" by (rule exp_le)
  finally have "exp (1/2 :: real) < 2 ^ 24" by simp
  then show "\<bar>exp (1/2 :: real)\<bar> < 2 ^ 24" by simp
qed

lemma rhe_nonneg: "0 \<le> y \<Longrightarrow> 0 \<le> rhe y"
proof -
  assume "0 \<le> y"
  then have "0 \<le> \<lfloor>y\<rfloor>" by simp
  then show ?thesis by (simp add: rhe_def Let_def)
qed

lemma rhe_nonpos: "y \<le> 0 \<Longrightarrow> rhe y \<le> 0"
proof -
  assume y: "y \<le> 0"
  then have f: "\<lfloor>y\<rfloor> \<le> 0" by (simp add: floor_le_zero)
  show ?thesis
  proof (cases "\<lfloor>y\<rfloor> = 0")
    case True
    then have "0 \<le> y" by (simp add: floor_eq_iff)
    with y have "y = 0" by simp
    then show ?thesis by (simp add: rhe_def)
  next
    case False
    with f have "\<lfloor>y\<rfloor> + 1 \<le> 0" by linarith
    with f show ?thesis by (simp add: rhe_def Let_def)
  qed
qed

lemma nearest32_nonneg: "0 \<le> x \<Longrightarrow> 0 \<le> nearest32 x"
proof -
  assume x: "0 \<le> x"
  have "0 \<le> rhe (x / 2 powr e)" for e :: real
    by (rule rhe_nonneg) (simp add: x)
  then show ?thesis by (simp add: nearest32_def nearest_def Let_def)
qed

lemma nearest32_nonpos: "x \<le> 0 \<Longrightarrow> nearest32 x \<le> 0"
proof -
  assume x: "x \<le> 0"
  have "rhe (x / 2 powr e) \<le> 0" for e :: real
    by (rule rhe_nonpos) (simp add: x divide_nonpos_nonneg)
  then have "of_int (rhe (x / 2 powr e)) * 2 powr e \<le> 0" for e :: real
    by (simp add: mult_nonpos_nonneg)
  then show ?thesis by (simp add: nearest32_def nearest_def Let_def)
qed

lemma nearest32_pos:
  assumes "1 \<le> x"
  shows "0 < nearest32 x"
proof -
  define k where "k = \<lfloor>log 2 \<bar>x\<bar>\<rfloor>"
  define e where "e = k - 23"
  from assms have ax: "\<bar>x\<bar> = x" and px: "0 < x" by simp_all
  have "0 \<le> log 2 x" using assms by simp
  then have k0: "0 \<le> k" by (simp add: k_def ax)
  have "of_int k \<le> log 2 x" by (simp add: k_def ax)
  then have "2 powr of_int k \<le> x" using px by (simp add: le_log_iff)
  moreover have "(2::real) powr of_int k = 2 powr of_int e * 2 powr 23"
  proof -
    have "real_of_int k = of_int e + 23" by (simp add: e_def)
    then show ?thesis by (simp only: powr_add)
  qed
  ultimately have "2 powr of_int e * 2 powr 23 \<le> x" by simp
  then have "2 powr 23 \<le> x / 2 powr of_int e"
    by (simp add: le_divide_eq mult.commute)
  moreover have "(1::real) \<le> 2 powr 23" by simp
  ultimately have "1 \<le> x / 2 powr of_int e" by linarith
  then have "1 \<le> \<lfloor>x / 2 powr of_int e\<rfloor>" by (simp add: le_floor_iff)
  with rhe_ge_floor [of "x / 2 powr of_int e"] have "0 < rhe (x / 2 powr of_int e)"
    by linarith
  then have "0 < real_of_int (rhe (x / 2 powr of_int e)) * 2 powr real_of_int e" by simp
  moreover have me: "max \<lfloor>log 2 \<bar>x\<bar>\<rfloor> (- 126) - (int 24 - 1) = e"
    using k0 by (simp add: e_def k_def)
  have "nearest32 x = real_of_int (rhe (x / 2 powr of_int e)) * 2 powr real_of_int e"
    using px unfolding nearest32_def nearest_def Let_def me by simp
  ultimately show ?thesis by simp
qed

lemma foldl_fl_add_zeros: "foldl (fl_add round32) (Fin 0) (replicate n (Fin 0)) = Fin 0"
  by (induction n) (simp_all add: round32_0)

lemma float_format_binary32: "float_format binary32"
proof -
  have 1: "rnd binary32 0 = Fin 0" by (simp add: binary32_def round32_0)
  have 2: "fl_le (Fin 0) (rnd binary32 x)" if "0 \<le> x" for x
    using that nearest32_nonneg [OF that] by (simp add: binary32_def round32_def)
  have 3: "fl_le (rnd binary32 x) (Fin 0)" if "x \<le> 0" for x
    using that nearest32_nonpos [OF that] by (simp add: binary32_def round32_def)
  have 4: "fmean binary32 (replicate n (Fin 0)) = Fin 0" if "0 < n" for n
  proof -
    from that have n: "1 \<le> real n" by simp
    have "round32 (real n) = PInf \<or> (\<exists>y. y \<noteq> 0 \<and> round32 (real n) = Fin y)"
      using nearest32_pos [OF n] by (simp add: round32_def)
    then have "fl_div round32 (Fin 0) (round32 (real n)) = Fin 0"
      by (auto simp: round32_0)
    then show ?thesis by (simp add: binary32_def mean32_def foldl_fl_add_zeros)
  qed
  from 1 2 3 4 show ?thesis unfolding float_format_def by simp
qed

section \<open>Properties of the clipped critic loss\<close>

lemma fl_mean_cong:
  assumes "shape t = shape u" "\<And>i. valid_index (shape t) i \<Longrightarrow> elem t i = elem u i"
  shows "fl_mean F t = fl_mean F u"
proof -
  have m: "map (elem t) (indices (shape t)) = map (elem u) (indices (shape t))"
    by (rule map_cong) (simp_all add: mem_indices assms(2))
  show ?thesis unfolding fl_mean_def assms(1) [symmetric] m ..
qed

lemma fl_max_same: "fl_max a a = a"
  by (simp add: fl_max_def)

lemma fl_clamp_inactive:
  assumes "fl_le lo (Fin d)" "fl_le (Fin d) hi"
  shows "fl_clamp lo hi (Fin d) = Fin d"
proof -
  have "fl_max (Fin d) lo = Fin d"
    using assms(1) by (cases lo) (simp_all add: fl_max_def)
  moreover have "fl_min (Fin d) hi = Fin d"
    using assms(2) by (cases hi) (simp_all add: fl_min_def)
  ultimately show ?thesis by (simp add: fl_clamp_def)
qed

lemma ClipCriticLoss_exact:
  assumes sh: "shape old_values = shape new_values"
    and ex: "\<forall>i \<in> set (indices (shape new_values)). \<exists>x y.
               elem new_values i = Fin x \<and> elem old_values i = Fin y \<and>
               rnd F (x - y) = Fin (x - y) \<and> rnd F x = Fin x \<and>
               fl_le (rnd F (- eps)) (Fin (x - y)) \<and> fl_le (Fin (x - y)) (rnd F eps)"
  shows "ClipCriticLoss_forward F eps old_values new_values returns
           = half_mse F new_values returns"
proof -
  let ?s = "shape new_values"
  let ?r = "shape returns"
  let ?c = "fl_clamp (rnd F (- eps)) (rnd F eps)"
  let ?sq = "\<lambda>x. fl_mul (rnd F) x x"
  define D where "D = Tensor ?s
     (\<lambda>i. fl_sub (rnd F) (elem new_values (operand_index ?s i))
                          (elem old_values (operand_index ?s i)))"
  define VC where "VC = Tensor ?s
     (\<lambda>i. fl_add (rnd F) (elem old_values (operand_index ?s i))
                          (elem (tmap ?c D) (operand_index ?s i)))"
  have d: "tbinop (fl_sub (rnd F)) new_values old_values = Inr D"
    unfolding D_def using tbinop_same_shape [of new_values old_values "fl_sub (rnd F)"] sh
    by simp
  have shD: "shape (tmap ?c D) = ?s" by (simp add: tmap_def D_def)
  have vc: "tbinop (fl_add (rnd F)) old_values (tmap ?c D) = Inr VC"
    unfolding VC_def
    using tbinop_same_shape [of old_values "tmap ?c D" "fl_add (rnd F)"] sh shD by simp
  have shVC: "shape VC = ?s" by (simp add: VC_def)
  have VC_new: "elem VC i = elem new_values i" if v: "valid_index ?s i" for i
  proof -
    have oi: "operand_index ?s i = i" by (rule operand_index_same [OF v])
    have "i \<in> set (indices ?s)" using v by (simp add: mem_indices)
    with ex obtain x y where n: "elem new_values i = Fin x" and o: "elem old_values i = Fin y"
      and e1: "rnd F (x - y) = Fin (x - y)" and e2: "rnd F x = Fin x"
      and lo: "fl_le (rnd F (- eps)) (Fin (x - y))" and hi: "fl_le (Fin (x - y)) (rnd F eps)"
      by blast
    have "?c (Fin (x - y)) = Fin (x - y)" by (rule fl_clamp_inactive [OF lo hi])
    then show ?thesis by (simp add: VC_def tmap_def D_def oi n o fl_sub_def e1 e2)
  qed
  show ?thesis
  proof (cases "broadcast_shapes ?s ?r")
    case None
    have "tbinop (fl_sub (rnd F)) VC returns = Inl RuntimeError"
      by (rule tbinop_shapes(2)) (simp add: shVC None)
    moreover have "tbinop (fl_sub (rnd F)) new_values returns = Inl RuntimeError"
      by (rule tbinop_shapes(2)) (simp add: None)
    ultimately show ?thesis
      by (simp add: ClipCriticLoss_forward_def half_mse_def d vc)
  next
    case (Some q)
    define D1 where "D1 = Tensor q
       (\<lambda>i. fl_sub (rnd F) (elem VC (operand_index ?s i)) (elem returns (operand_index ?r i)))"
    define D2 where "D2 = Tensor q
       (\<lambda>i. fl_sub (rnd F) (elem new_values (operand_index ?s i))
                            (elem returns (operand_index ?r i)))"
    define M where "M = Tensor q
       (\<lambda>i. fl_max (elem (tmap ?sq D1) (operand_index q i))
                     (elem (tmap ?sq D2) (operand_index q i)))"
    have d1: "tbinop (fl_sub (rnd F)) VC returns = Inr D1"
      unfolding D1_def using tbinop_shapes(1) [of VC returns q "fl_sub (rnd F)"] Some shVC
      by simp
    have d2: "tbinop (fl_sub (rnd F)) new_values returns = Inr D2"
      unfolding D2_def using tbinop_shapes(1) [of new_values returns q "fl_sub (rnd F)"] Some
      by simp
    have m: "tbinop fl_max (tmap ?sq D1) (tmap ?sq D2) = Inr M"
      unfolding M_def
      using tbinop_same_shape [of "tmap ?sq D1" "tmap ?sq D2" fl_max]
      by (simp add: tmap_def D1_def D2_def)
    have fw: "ClipCriticLoss_forward F eps old_values new_values returns
                = Inr (fl_mul (rnd F) (Fin (1/2)) (fl_mean F M))"
      by (simp add: ClipCriticLoss_forward_def Let_def d vc d1 d2 m)
    have hm: "half_mse F new_values returns
                = Inr (fl_mul (rnd F) (Fin (1/2)) (fl_mean F (tmap ?sq D2)))"
      by (simp add: half_mse_def d2)
    have "fl_mean F M = fl_mean F (tmap ?sq D2)"
    proof (rule fl_mean_cong)
      show "shape M = shape (tmap ?sq D2)" by (simp add: M_def tmap_def D2_def)
    next
      fix j assume "valid_index (shape M) j"
      then have vj: "valid_index q j" by (simp add: M_def)
      have oj: "operand_index q j = j" by (rule operand_index_same [OF vj])
      have "valid_index ?s (operand_index ?s j)"
        by (rule operand_index_valid(1) [OF Some vj])
      then have "elem VC (operand_index ?s j) = elem new_values (operand_index ?s j)"
        by (rule VC_new)
      then show "elem M j = elem (tmap ?sq D2) j"
        by (simp add: M_def tmap_def D1_def D2_def oj fl_max_same)
    qed
    with fw hm show ?thesis by simp
  qed
qed

lemma ClipCriticLoss_equal_values:
  assumes ff: "float_format F" and eps: "0 \<le> eps"
    and sh: "shape old_values = shape new_values"
    and eq: "\<forall>i \<in> set (indices (shape new_values)). \<exists>x.
               elem new_values i = Fin x \<and> elem old_values i = Fin x \<and> rnd F x = Fin x"
  shows "ClipCriticLoss_forward F eps old_values new_values returns
           = half_mse F new_values returns"
proof (rule ClipCriticLoss_exact [OF sh])
  from ff have z: "rnd F 0 = Fin 0" and lo: "fl_le (rnd F (- eps)) (Fin 0)"
    and hi: "fl_le (Fin 0) (rnd F eps)"
    using eps by (simp_all add: float_format_def)
  show "\<forall>i \<in> set (indices (shape new_values)). \<exists>x y.
               elem new_values i = Fin x \<and> elem old_values i = Fin y \<and>
               rnd F (x - y) = Fin (x - y) \<and> rnd F x = Fin x \<and>
               fl_le (rnd F (- eps)) (Fin (x - y)) \<and> fl_le (Fin (x - y)) (rnd F eps)"
  proof
    fix i assume "i \<in> set (indices (shape new_values))"
    with eq obtain x where x: "elem new_values i = Fin x" "elem old_values i = Fin x"
      "rnd F x = Fin x" by blast
    have "elem new_values i = Fin x \<and> elem old_values i = Fin x \<and>
               rnd F (x - x) = Fin (x - x) \<and> rnd F x = Fin x \<and>
               fl_le (rnd F (- eps)) (Fin (x - x)) \<and> fl_le (Fin (x - x)) (rnd F eps)"
      using x z lo hi by simp
    then show "\<exists>x y. elem new_values i = Fin x \<and> elem old_values i = Fin y \<and>
               rnd F (x - y) = Fin (x - y) \<and> rnd F x = Fin x \<and>
               fl_le (rnd F (- eps)) (Fin (x - y)) \<and> fl_le (Fin (x - y)) (rnd F eps)"
      by (intro exI)
  qed
qed

lemmas fl_eval = tbinop_def broadcast_shapes_def operand_index_def tmap_def fvec_def vec_def
  fl_mean_def mean32_def indices_1 upt_rec binary32_def fl_sub_def fl_clamp_def fl_min_def
  fl_max_def

lemma half_mse_example:
  "half_mse binary32 (fvec [3/2]) (fvec [0]) = Inr (Fin (9/8))"
  using round32_3_2 round32_9_4 round32_9_8 round32_half round32_1
  by (simp add: half_mse_def fl_eval)

text \<open>
  Claim C4, as stated, fails in binary32. With the old value \<open>1/2\<close>, the new value and
  the return \<open>1 / 2 ^ 30\<close> and \<open>eps = 1/2\<close>, the bound \<open>|new - old| \<le> eps\<close> holds,
  but \<open>new - old\<close> rounds to \<open>-1/2\<close>, so \<open>old + clamp(new - old)\<close> is 0 and not the
  new value: the loss is \<open>1 / 2 ^ 61\<close>, and half the mean squared error is 0. And with
  old values of shape \<open>[0]\<close> and one new value, the bound holds at every entry of
  \<open>new - old\<close>, which has none; the loss is the mean of no entry, NaN, and half the mean
  squared error is \<open>1/2\<close>.
\<close>

theorem ClipCriticLoss_rounding_counterexample:
  "\<bar>1/2^30 - 1/2\<bar> \<le> (1/2 :: real) \<and>
   ClipCriticLoss_forward binary32 (1/2) (fvec [1/2]) (fvec [1/2^30]) (fvec [1/2^30])
     = Inr (Fin (1/2^61)) \<and>
   half_mse binary32 (fvec [1/2^30]) (fvec [1/2^30]) = Inr (Fin 0) \<and>
   ClipCriticLoss_forward binary32 (1/2) (Tensor [0] (\<lambda>i. Fin 0)) (fvec [1]) (fvec [0])
     = Inr NaN \<and>
   half_mse binary32 (fvec [1]) (fvec [0]) = Inr (Fin (1/2))"
proof (intro conjI)
  show "\<bar>1/2^30 - 1/2\<bar> \<le> (1/2 :: real)" by simp
  show "ClipCriticLoss_forward binary32 (1/2) (fvec [1/2]) (fvec [1/2^30]) (fvec [1/2^30])
     = Inr (Fin (1/2^61))"
    using round32_cancel round32_half round32_mhalf round32_0 round32_m30 round32_60 round32_61
      round32_1
    by (simp add: ClipCriticLoss_forward_def Let_def fl_eval)
  show "half_mse binary32 (fvec [1/2^30]) (fvec [1/2^30]) = Inr (Fin 0)"
    using round32_0 round32_1 by (simp add: half_mse_def fl_eval)
  show "ClipCriticLoss_forward binary32 (1/2) (Tensor [0] (\<lambda>i. Fin 0)) (fvec [1]) (fvec [0])
     = Inr NaN"
    using round32_0 by (simp add: ClipCriticLoss_forward_def Let_def fl_eval)
  show "half_mse binary32 (fvec [1]) (fvec [0]) = Inr (Fin (1/2))"
    using round32_1 round32_half by (simp add: half_mse_def fl_eval)
qed

text \<open>
  Claim C4, amended. Let the old and the new values have one shape and finite entries.
  If at every entry the difference \<open>new - old\<close> is computed without rounding error and
  lies within the rounded clip bounds, and the new value is a number of the format, then
  \<open>ClipCriticLoss.forward\<close> with the clip parameter \<open>eps\<close> returns exactly
  \<open>0.5 * mean((new - returns)\<^sup>2)\<close> as computed in the same arithmetic, for returns of
  any shape (both raise, or are NaN, together). In particular it does so when the new values
  equal the old ones, entry by entry, and \<open>eps \<ge> 0\<close>.
\<close>

theorem ClipCriticLoss_unclipped:
  "(shape old_values = shape new_values \<and>
    (\<forall>i \<in> set (indices (shape new_values)). \<exists>x y.
        elem new_values i = Fin x \<and> elem old_values i = Fin y \<and>
        rnd F (x - y) = Fin (x - y) \<and> rnd F x = Fin x \<and>
        fl_le (rnd F (- eps)) (Fin (x - y)) \<and> fl_le (Fin (x - y)) (rnd F eps)) \<longrightarrow>
    ClipCriticLoss_forward F eps old_values new_values returns
      = half_mse F new_values returns) \<and>
   (float_format F \<and> 0 \<le> eps \<and> shape old_values = shape new_values \<and>
    (\<forall>i \<in> set (indices (shape new_values)). \<exists>x.
        elem new_values i = Fin x \<and> elem old_values i = Fin x \<and> rnd F x = Fin x) \<longrightarrow>
    ClipCriticLoss_forward F eps old_values new_values returns
      = half_mse F new_values returns)"
proof (intro conjI impI)
  assume a: "shape old_values = shape new_values \<and>
    (\<forall>i \<in> set (indices (shape new_values)). \<exists>x y.
        elem new_values i = Fin x \<and> elem old_values i = Fin y \<and>
        rnd F (x - y) = Fin (x - y) \<and> rnd F x = Fin x \<and>
        fl_le (rnd F (- eps)) (Fin (x - y)) \<and> fl_le (Fin (x - y)) (rnd F eps))"
  show "ClipCriticLoss_forward F eps old_values new_values returns
      = half_mse F new_values returns"
    by (rule ClipCriticLoss_exact [OF a [THEN conjunct1] a [THEN conjunct2]])
next
  assume a: "float_format F \<and> 0 \<le> eps \<and> shape old_values = shape new_values \<and>
    (\<forall>i \<in> set (indices (shape new_values)). \<exists>x.
        elem new_values i = Fin x \<and> elem old_values i = Fin x \<and> rnd F x = Fin x)"
  show "ClipCriticLoss_forward F eps old_values new_values returns
      = half_mse F new_values returns"
    by (rule ClipCriticLoss_equal_values
        [OF a [THEN conjunct1] a [THEN conjunct2, THEN conjunct1]
            a [THEN conjunct2, THEN conjunct2, THEN conjunct1]
            a [THEN conjunct2, THEN conjunct2, THEN conjunct2]])
qed

theorem ClipCriticLoss_unclipped_witness:
  "float_format binary32 \<and>
   ClipCriticLoss_forward binary32 (1/2) (fvec [1]) (fvec [3/2]) (fvec [0]) = Inr (Fin (9/8)) \<and>
   ClipCriticLoss_forward binary32 (1/4) (fvec [1, 1/2]) (fvec [1, 1/2]) (fvec [0])
     = half_mse binary32 (fvec [1, 1/2]) (fvec [0])"
proof -
  note t1 = ClipCriticLoss_unclipped [of "fvec [1]" "fvec [3/2]" binary32 "1/2" "fvec [0]",
      THEN conjunct1, THEN mp]
  note t2 = ClipCriticLoss_unclipped [of "fvec [1, 1/2]" "fvec [1, 1/2]" binary32 "1/4" "fvec [0]",
      THEN conjunct2, THEN mp]
  have h1: "shape (fvec [1]) = shape (fvec [3/2]) \<and>
    (\<forall>i \<in> set (indices (shape (fvec [3/2]))). \<exists>x y.
        elem (fvec [3/2]) i = Fin x \<and> elem (fvec [1]) i = Fin y \<and>
        rnd binary32 (x - y) = Fin (x - y) \<and> rnd binary32 x = Fin x \<and>
        fl_le (rnd binary32 (- (1/2))) (Fin (x - y)) \<and> fl_le (Fin (x - y)) (rnd binary32 (1/2)))"
    using round32_half round32_mhalf round32_3_2
    apply (simp add: fvec_def vec_def tmap_def indices_1 upt_rec binary32_def)
    apply (rule exI [of _ "3/2"])
    apply simp
    done
  have h2: "float_format binary32 \<and> 0 \<le> (1/4 :: real) \<and>
    shape (fvec [1, 1/2]) = shape (fvec [1, 1/2]) \<and>
    (\<forall>i \<in> set (indices (shape (fvec [1, 1/2]))). \<exists>x.
        elem (fvec [1, 1/2]) i = Fin x \<and> elem (fvec [1, 1/2]) i = Fin x \<and>
        rnd binary32 x = Fin x)"
    using round32_half round32_1 float_format_binary32
    by (simp add: fvec_def vec_def tmap_def indices_1 upt_rec binary32_def)
  from t1 [OF h1] have c1:
    "ClipCriticLoss_forward binary32 (1/2) (fvec [1]) (fvec [3/2]) (fvec [0]) = Inr (Fin (9/8))"
    by (simp only: half_mse_example)
  from c1 t2 [OF h2] float_format_binary32 show ?thesis by (intro conjI)
qed

section \<open>Properties of the clipped actor loss\<close>

lemma fl_mul_finite_zero:
  assumes "float_format F" "fl_finite a"
  shows "fl_mul (rnd F) a (Fin 0) = Fin 0"
proof -
  from assms(2) obtain x where "a = Fin x" by (cases a) (simp_all add: fl_finite_def)
  with assms(1) show ?thesis by (simp add: float_format_def)
qed

lemma fl_clamp_finite:
  assumes "fl_finite lo" "fl_finite hi" "fl_finite a"
  shows "fl_finite (fl_clamp lo hi a)"
proof -
  from assms obtain x y z where "lo = Fin x" "hi = Fin y" "a = Fin z"
    by (cases lo; cases hi; cases a) (simp_all add: fl_finite_def)
  then show ?thesis by (simp add: fl_clamp_def fl_min_def fl_max_def fl_finite_def)
qed

lemma fl_mean_zero:
  assumes ff: "float_format F" and n: "numel t \<noteq> 0"
    and z: "\<And>i. valid_index (shape t) i \<Longrightarrow> elem t i = Fin 0"
  shows "fl_mean F t = Fin 0"
proof -
  have "fl_mean F t = fl_mean F (Tensor (shape t) (\<lambda>i. Fin 0))"
    by (rule fl_mean_cong) (simp_all add: z)
  also have "\<dots> = fmean F (replicate (numel t) (Fin 0))"
    by (simp add: fl_mean_def numel_def map_replicate_const length_indices)
  also have "\<dots> = Fin 0" using ff n by (simp add: float_format_def)
  finally show ?thesis .
qed

lemma ClipActorLoss_forward_Inr:
  assumes "ClipActorLoss_forward F eps old new adv = Inr r"
  shows "\<exists>d s1 s2 m.
     tbinop (fl_sub (rnd F)) new old = Inr d \<and>
     tbinop (fl_mul (rnd F)) (tmap (fexp F) d) (unsqueeze_last adv) = Inr s1 \<and>
     tbinop (fl_mul (rnd F))
       (tmap (fl_clamp (rnd F (nearest64 (1 - eps))) (rnd F (nearest64 (1 + eps)))) (tmap (fexp F) d))
       (unsqueeze_last adv) = Inr s2 \<and>
     tbinop fl_min s1 s2 = Inr m \<and> r = fl_neg (fl_mean F m)"
proof -
  note df = ClipActorLoss_forward_def Let_def
  let ?ratio = "\<lambda>d. tmap (fexp F) d"
  let ?c = "fl_clamp (rnd F (nearest64 (1 - eps))) (rnd F (nearest64 (1 + eps)))"
  obtain d where 1: "tbinop (fl_sub (rnd F)) new old = Inr d"
    using assms by (cases "tbinop (fl_sub (rnd F)) new old") (simp_all add: df)
  obtain s1 where 2: "tbinop (fl_mul (rnd F)) (?ratio d) (unsqueeze_last adv) = Inr s1"
    using assms 1
    by (cases "tbinop (fl_mul (rnd F)) (?ratio d) (unsqueeze_last adv)") (simp_all add: df)
  obtain s2 where 3:
    "tbinop (fl_mul (rnd F)) (tmap ?c (?ratio d)) (unsqueeze_last adv) = Inr s2"
    using assms 1 2
    by (cases "tbinop (fl_mul (rnd F)) (tmap ?c (?ratio d)) (unsqueeze_last adv)")
       (simp_all add: df)
  obtain m where 4: "tbinop fl_min s1 s2 = Inr m"
    using assms 1 2 3 by (cases "tbinop fl_min s1 s2") (simp_all add: df)
  have 5: "r = fl_neg (fl_mean F m)"
    using assms 1 2 3 4 by (simp add: df)
  show ?thesis
    apply (rule exI [of _ d])
    apply (rule exI [of _ s1])
    apply (rule exI [of _ s2])
    apply (rule exI [of _ m])
    apply (intro conjI)
        apply (rule 1)
       apply (rule 2)
      apply (rule 3)
     apply (rule 4)
    apply (rule 5)
    done
qed

lemma tbinop_zero_advantage:
  assumes t: "tbinop (fl_mul (rnd F)) a (unsqueeze_last adv) = Inr c"
    and ff: "float_format F"
    and z: "\<forall>i \<in> set (indices (shape adv)). elem adv i = Fin 0"
    and fin: "\<And>i. valid_index (shape a) i \<Longrightarrow> fl_finite (elem a i)"
    and v: "valid_index (shape c) k"
  shows "elem c k = Fin 0"
proof -
  let ?u = "unsqueeze_last adv"
  from tbinop_Inr [OF t] have bc: "broadcast_shapes (shape a) (shape ?u) = Some (shape c)"
    and el: "elem c k = fl_mul (rnd F) (elem a (operand_index (shape a) k))
                                        (elem ?u (operand_index (shape ?u) k))"
    by simp_all
  have "valid_index (shape ?u) (operand_index (shape ?u) k)"
    by (rule operand_index_valid(2) [OF bc v])
  then have "valid_index (shape adv) (butlast (operand_index (shape ?u) k))"
    using valid_index_butlast [of "shape adv" 1] by (simp add: unsqueeze_last_def)
  then have "elem adv (butlast (operand_index (shape ?u) k)) = Fin 0"
    using z by (simp add: mem_indices)
  then have u0: "elem ?u (operand_index (shape ?u) k) = Fin 0" by (simp add: unsqueeze_last_def)
  have "fl_finite (elem a (operand_index (shape a) k))"
    by (rule fin [OF operand_index_valid(1) [OF bc v]])
  from fl_mul_finite_zero [OF ff this] el u0 show ?thesis by simp
qed

lemma tbinop_numel_zero:
  assumes "tbinop f a b = Inr c"
  shows "numel c = 0 \<longleftrightarrow> numel a = 0 \<or> numel b = 0"
  using broadcast_shapes_zero [OF tbinop_Inr(1) [OF assms]] by (simp add: numel_def)

lemma ClipActorLoss_zero_advantages:
  assumes ff: "float_format F"
    and lo: "fl_finite (rnd F (nearest64 (1 - eps)))" and hi: "fl_finite (rnd F (nearest64 (1 + eps)))"
    and z: "\<forall>i \<in> set (indices (shape adv)). elem adv i = Fin 0"
    and ne: "numel old \<noteq> 0" "numel new \<noteq> 0" "numel adv \<noteq> 0"
    and rf: "\<forall>d. tbinop (fl_sub (rnd F)) new old = Inr d \<longrightarrow>
               (\<forall>i \<in> set (indices (shape d)). fl_finite (fexp F (elem d i)))"
    and f: "ClipActorLoss_forward F eps old new adv = Inr r"
  shows "r = Fin 0"
proof -
  let ?c = "fl_clamp (rnd F (nearest64 (1 - eps))) (rnd F (nearest64 (1 + eps)))"
  from ClipActorLoss_forward_Inr [OF f] obtain d s1 s2 m where
    d: "tbinop (fl_sub (rnd F)) new old = Inr d"
    and s1: "tbinop (fl_mul (rnd F)) (tmap (fexp F) d) (unsqueeze_last adv) = Inr s1"
    and s2: "tbinop (fl_mul (rnd F)) (tmap ?c (tmap (fexp F) d)) (unsqueeze_last adv)
               = Inr s2"
    and m: "tbinop fl_min s1 s2 = Inr m"
    and r: "r = fl_neg (fl_mean F m)"
    by blast
  have rfin: "\<forall>i \<in> set (indices (shape d)). fl_finite (fexp F (elem d i))"
    by (rule rf [THEN spec, THEN mp, OF d])
  have fin1: "fl_finite (elem (tmap (fexp F) d) i)"
    if "valid_index (shape (tmap (fexp F) d)) i" for i
    using that rfin by (simp add: tmap_def mem_indices)
  have fin2: "fl_finite (elem (tmap ?c (tmap (fexp F) d)) i)"
    if "valid_index (shape (tmap ?c (tmap (fexp F) d))) i" for i
  proof -
    from that have "fl_finite (fexp F (elem d i))"
      using rfin by (simp add: tmap_def mem_indices)
    from fl_clamp_finite [OF lo hi this] show ?thesis by (simp add: tmap_def)
  qed
  have em: "elem m j = Fin 0" if v: "valid_index (shape m) j" for j
  proof -
    from tbinop_Inr [OF m] have bc: "broadcast_shapes (shape s1) (shape s2) = Some (shape m)"
      and el: "elem m j = fl_min (elem s1 (operand_index (shape s1) j))
                                 (elem s2 (operand_index (shape s2) j))"
      by simp_all
    have "elem s1 (operand_index (shape s1) j) = Fin 0"
      by (rule tbinop_zero_advantage [OF s1 ff z fin1 operand_index_valid(1) [OF bc v]])
    moreover have "elem s2 (operand_index (shape s2) j) = Fin 0"
      by (rule tbinop_zero_advantage [OF s2 ff z fin2 operand_index_valid(2) [OF bc v]])
    ultimately show ?thesis using el by (simp add: fl_min_def)
  qed
  have nu: "numel (unsqueeze_last adv) = numel adv"
    by (simp add: numel_def unsqueeze_last_def)
  have n1: "numel s1 \<noteq> 0"
    using tbinop_numel_zero [OF s1] tbinop_numel_zero [OF d] nu ne
    by (simp add: numel_def tmap_def)
  have n2: "numel s2 \<noteq> 0"
    using tbinop_numel_zero [OF s2] tbinop_numel_zero [OF d] nu ne
    by (simp add: numel_def tmap_def)
  have nm: "numel m \<noteq> 0"
    using tbinop_numel_zero [OF m] n1 n2 by simp
  have "fl_mean F m = Fin 0" by (rule fl_mean_zero [OF ff nm em])
  with r show ?thesis by simp
qed

lemma broadcast_shapes_column: "broadcast_shapes [B, A] [B, 1] = Some [B, A]"
  by (simp add: broadcast_shapes_def)

lemma operand_index_column:
  "b < B \<Longrightarrow> operand_index [B, 1] [b, a] = [b, 0]"
  by (auto simp: operand_index_def)

lemma ClipActorLoss_formula:
  assumes so: "shape old = [B, A]" and sn: "shape new = [B, A]" and sa: "shape adv = [B]"
  shows "ClipActorLoss_forward F eps old new adv =
     Inr (fl_neg (fl_mean F (Tensor [B, A]
            (\<lambda>i. clipped_surrogate F eps (elem old i) (elem new i) (elem adv [hd i])))))"
proof -
  let ?s = "[B, A]"
  let ?u = "unsqueeze_last adv"
  let ?c = "fl_clamp (rnd F (nearest64 (1 - eps))) (rnd F (nearest64 (1 + eps)))"
  let ?e = "fexp F"
  define d where "d = Tensor ?s
     (\<lambda>i. fl_sub (rnd F) (elem new (operand_index ?s i)) (elem old (operand_index ?s i)))"
  define s1 where "s1 = Tensor ?s
     (\<lambda>i. fl_mul (rnd F) (elem (tmap ?e d) (operand_index ?s i))
                          (elem ?u (operand_index [B, 1] i)))"
  define s2 where "s2 = Tensor ?s
     (\<lambda>i. fl_mul (rnd F) (elem (tmap ?c (tmap ?e d)) (operand_index ?s i))
                          (elem ?u (operand_index [B, 1] i)))"
  define m where "m = Tensor ?s
     (\<lambda>i. fl_min (elem s1 (operand_index ?s i)) (elem s2 (operand_index ?s i)))"
  define g where
    "g = (\<lambda>i. clipped_surrogate F eps (elem old i) (elem new i) (elem adv [hd i]))"
  have su: "shape ?u = [B, 1]" by (simp add: unsqueeze_last_def sa)
  have 1: "tbinop (fl_sub (rnd F)) new old = Inr d"
    unfolding d_def using tbinop_same_shape [of new old "fl_sub (rnd F)"] so sn by simp
  have 2: "tbinop (fl_mul (rnd F)) (tmap ?e d) ?u = Inr s1"
    unfolding s1_def
    using tbinop_shapes(1) [of "tmap ?e d" ?u ?s "fl_mul (rnd F)"]
      broadcast_shapes_column [of B A] su
    by (simp add: tmap_def d_def)
  have 3: "tbinop (fl_mul (rnd F)) (tmap ?c (tmap ?e d)) ?u = Inr s2"
    unfolding s2_def
    using tbinop_shapes(1) [of "tmap ?c (tmap ?e d)" ?u ?s "fl_mul (rnd F)"]
      broadcast_shapes_column [of B A] su
    by (simp add: tmap_def d_def)
  have 4: "tbinop fl_min s1 s2 = Inr m"
    unfolding m_def using tbinop_same_shape [of s1 s2 fl_min] by (simp add: s1_def s2_def)
  have fw: "ClipActorLoss_forward F eps old new adv = Inr (fl_neg (fl_mean F m))"
    by (simp add: ClipActorLoss_forward_def Let_def 1 2 3 4)
  have "fl_mean F m = fl_mean F (Tensor ?s g)"
  proof (rule fl_mean_cong)
    show "shape m = shape (Tensor ?s g)" by (simp add: m_def)
  next
    fix i assume "valid_index (shape m) i"
    then have v: "valid_index ?s i" by (simp add: m_def)
    then obtain b a where i: "i = [b, a]" and b: "b < B" and a: "a < A"
      by (auto simp: valid_index_2)
    have oi: "operand_index ?s [b, a] = [b, a]"
      using operand_index_same [OF v] i by simp
    have oc: "operand_index [B, Suc 0] [b, a] = [b, 0]"
      using operand_index_column [OF b, of a] by simp
    show "elem m i = elem (Tensor ?s g) i"
      by (simp add: i m_def s1_def s2_def tmap_def d_def g_def oi oc unsqueeze_last_def
          clipped_surrogate_def Let_def)
  qed
  with fw show ?thesis by (simp add: g_def)
qed

lemma ClipActorLoss_zero_2d:
  assumes so: "shape old = [B, A]" and sn: "shape new = [B, A]" and sa: "shape adv = [B]"
    and ne: "0 < B * A"
    and ff: "float_format F"
    and lo: "fl_finite (rnd F (nearest64 (1 - eps)))" and hi: "fl_finite (rnd F (nearest64 (1 + eps)))"
    and z: "\<forall>b<B. elem adv [b] = Fin 0"
    and rf: "\<forall>b<B. \<forall>a<A.
       fl_finite (fexp F (fl_sub (rnd F) (elem new [b, a]) (elem old [b, a])))"
  shows "ClipActorLoss_forward F eps old new adv = Inr (Fin 0)"
proof -
  let ?g = "\<lambda>i. clipped_surrogate F eps (elem old i) (elem new i) (elem adv [hd i])"
  have "fl_mean F (Tensor [B, A] ?g) = Fin 0"
  proof (rule fl_mean_zero [OF ff])
    show "numel (Tensor [B, A] ?g) \<noteq> 0" using ne by (simp add: numel_def)
  next
    fix i assume "valid_index (shape (Tensor [B, A] ?g)) i"
    then obtain b a where i: "i = [b, a]" and b: "b < B" and a: "a < A"
      by (auto simp: valid_index_2)
    let ?r = "fexp F (fl_sub (rnd F) (elem new [b, a]) (elem old [b, a]))"
    from rf b a have r: "fl_finite ?r" by simp
    from z b have a0: "elem adv [b] = Fin 0" by simp
    have c: "fl_finite (fl_clamp (rnd F (nearest64 (1 - eps))) (rnd F (nearest64 (1 + eps))) ?r)"
      by (rule fl_clamp_finite [OF lo hi r])
    show "elem (Tensor [B, A] ?g) i = Fin 0"
      by (simp add: i clipped_surrogate_def Let_def a0 fl_mul_finite_zero [OF ff r]
          fl_mul_finite_zero [OF ff c] fl_min_def)
  qed
  then show ?thesis by (simp add: ClipActorLoss_formula [OF so sn sa])
qed

lemmas fl_eval_mat = tbinop_def broadcast_shapes_def operand_index_def tmap_def fvec_def vec_def
  fmat_def mat_def unsqueeze_last_def fl_mean_def mean32_def indices_1 indices_2 upt_rec
  binary32_def fl_sub_def fl_clamp_def fl_min_def fl_max_def

text \<open>
  Claim C3, as stated, for every tensor: it fails in binary32 on an empty batch, where all
  (no) advantages are 0 and the loss, the mean of no entry, is NaN; and it fails when a
  ratio overflows: with the old log-probability 0, the new one 128 and the advantage 0,
  \<open>exp(128)\<close> is infinite, infinity times 0 is NaN, and so is the loss.
\<close>

theorem ClipActorLoss_zero_advantage_counterexample:
  "ClipActorLoss_forward binary32 (1/4)
     (Tensor [0, 2] (\<lambda>i. Fin 0)) (Tensor [0, 2] (\<lambda>i. Fin 0)) (Tensor [0] (\<lambda>i. Fin 0))
     = Inr NaN \<and>
   ClipActorLoss_forward binary32 (1/4) (fmat [[0]]) (fmat [[128]]) (fvec [0]) = Inr NaN"
proof
  show "ClipActorLoss_forward binary32 (1/4)
     (Tensor [0, 2] (\<lambda>i. Fin 0)) (Tensor [0, 2] (\<lambda>i. Fin 0)) (Tensor [0] (\<lambda>i. Fin 0))
     = Inr NaN"
    using round32_0 by (simp add: ClipActorLoss_forward_def Let_def fl_eval_mat)
  show "ClipActorLoss_forward binary32 (1/4) (fmat [[0]]) (fmat [[128]]) (fvec [0]) = Inr NaN"
    using round32_128 round32_exp_128 round32_0 round32_1
    by (simp add: ClipActorLoss_forward_def Let_def fl_eval_mat)
qed

text \<open>
  Claim C3, amended. For old and new action log-probabilities of shape \<open>[B, A]\<close> and
  advantages of shape \<open>[B]\<close>, \<open>ClipActorLoss.forward\<close> with the clip parameter
  \<open>eps\<close> returns \<open>-mean(min(ratio * adv, clip(ratio, 1 - eps, 1 + eps) * adv))\<close> with
  \<open>ratio = exp(new - old)\<close> and the advantage of a row broadcast over its actions, every
  operation in floating point; the mean is NaN for an empty batch. When all advantages are
  0, the batch is not empty, the rounded clip bounds are finite and every ratio is finite
  (no overflow of \<open>exp\<close>, no infinite or NaN difference of log-probabilities), the loss
  is exactly 0; and for tensors of any shapes, none of them empty, under the same
  conditions, whenever the call returns it returns exactly 0.
\<close>

theorem ClipActorLoss_clipped_surrogate:
  "(shape old = [B, A] \<and> shape new = [B, A] \<and> shape adv = [B] \<longrightarrow>
      ClipActorLoss_forward F eps old new adv =
        Inr (fl_neg (fl_mean F (Tensor [B, A]
          (\<lambda>i. clipped_surrogate F eps (elem old i) (elem new i) (elem adv [hd i])))))) \<and>
   (shape old = [B, A] \<and> shape new = [B, A] \<and> shape adv = [B] \<and> 0 < B * A \<and>
    float_format F \<and> fl_finite (rnd F (nearest64 (1 - eps))) \<and> fl_finite (rnd F (nearest64 (1 + eps))) \<and>
    (\<forall>b<B. elem adv [b] = Fin 0) \<and>
    (\<forall>b<B. \<forall>a<A.
       fl_finite (fexp F (fl_sub (rnd F) (elem new [b, a]) (elem old [b, a])))) \<longrightarrow>
      ClipActorLoss_forward F eps old new adv = Inr (Fin 0)) \<and>
   (float_format F \<and> fl_finite (rnd F (nearest64 (1 - eps))) \<and> fl_finite (rnd F (nearest64 (1 + eps))) \<and>
    (\<forall>i \<in> set (indices (shape adv)). elem adv i = Fin 0) \<and>
    numel old \<noteq> 0 \<and> numel new \<noteq> 0 \<and> numel adv \<noteq> 0 \<and>
    (\<forall>d. tbinop (fl_sub (rnd F)) new old = Inr d \<longrightarrow>
       (\<forall>i \<in> set (indices (shape d)). fl_finite (fexp F (elem d i)))) \<longrightarrow>
      (\<forall>r. ClipActorLoss_forward F eps old new adv = Inr r \<longrightarrow> r = Fin 0))"
proof (intro conjI impI allI)
  assume a: "shape old = [B, A] \<and> shape new = [B, A] \<and> shape adv = [B]"
  show "ClipActorLoss_forward F eps old new adv =
        Inr (fl_neg (fl_mean F (Tensor [B, A]
          (\<lambda>i. clipped_surrogate F eps (elem old i) (elem new i) (elem adv [hd i])))))"
    by (rule ClipActorLoss_formula
        [OF a [THEN conjunct1] a [THEN conjunct2, THEN conjunct1]
            a [THEN conjunct2, THEN conjunct2]])
next
  assume a: "shape old = [B, A] \<and> shape new = [B, A] \<and> shape adv = [B] \<and> 0 < B * A \<and>
    float_format F \<and> fl_finite (rnd F (nearest64 (1 - eps))) \<and> fl_finite (rnd F (nearest64 (1 + eps))) \<and>
    (\<forall>b<B. elem adv [b] = Fin 0) \<and>
    (\<forall>b<B. \<forall>a<A.
       fl_finite (fexp F (fl_sub (rnd F) (elem new [b, a]) (elem old [b, a]))))"
  show "ClipActorLoss_forward F eps old new adv = Inr (Fin 0)"
    using a by (elim conjE) (rule ClipActorLoss_zero_2d; assumption)
next
  fix r
  assume a: "float_format F \<and> fl_finite (rnd F (nearest64 (1 - eps))) \<and> fl_finite (rnd F (nearest64 (1 + eps))) \<and>
    (\<forall>i \<in> set (indices (shape adv)). elem adv i = Fin 0) \<and>
    numel old \<noteq> 0 \<and> numel new \<noteq> 0 \<and> numel adv \<noteq> 0 \<and>
    (\<forall>d. tbinop (fl_sub (rnd F)) new old = Inr d \<longrightarrow>
       (\<forall>i \<in> set (indices (shape d)). fl_finite (fexp F (elem d i))))"
    and f: "ClipActorLoss_forward F eps old new adv = Inr r"
  show "r = Fin 0"
    using a by (elim conjE) (rule ClipActorLoss_zero_advantages [OF _ _ _ _ _ _ _ _ f]; assumption)
qed

theorem ClipActorLoss_clipped_surrogate_witness:
  "ClipActorLoss_forward binary32 (1/2) (fmat [[0]]) (fmat [[0]]) (fvec [2]) = Inr (Fin (- 2)) \<and>
   ClipActorLoss_forward binary32 (1/2) (fmat [[0]]) (fmat [[1/2]]) (fvec [0]) = Inr (Fin 0) \<and>
   ClipActorLoss_forward binary32 (1/2) (fvec [0]) (fmat [[1/2]]) (fvec [0]) = Inr (Fin 0)"
proof -
  note t1 = ClipActorLoss_clipped_surrogate
    [of "fmat [[0]]" 1 1 "fmat [[0]]" "fvec [2]" binary32 "1/2", THEN conjunct1, THEN mp]
  note t2 = ClipActorLoss_clipped_surrogate
    [of "fmat [[0]]" 1 1 "fmat [[1/2]]" "fvec [0]" binary32 "1/2",
     THEN conjunct2, THEN conjunct1, THEN mp]
  note t3 = ClipActorLoss_clipped_surrogate
    [of "fvec [0]" 1 1 "fmat [[1/2]]" "fvec [0]" binary32 "1/2",
     THEN conjunct2, THEN conjunct2, THEN mp, THEN spec, THEN mp]
  have sh: "shape (fmat [[0]]) = [1, 1]" "shape (fmat [[1/2]]) = [1, 1]"
    "shape (fvec [2]) = [1]" "shape (fvec [0]) = [1]"
    by (simp_all add: fmat_def mat_def fvec_def vec_def tmap_def)
  have b: "fl_finite (rnd binary32 (nearest64 (1 - 1/2)))" "fl_finite (rnd binary32 (nearest64 (1 + 1/2)))"
    using round32_half round32_3_2
    by (simp_all add: binary32_def fl_finite_def nearest64_half nearest64_3_2)
  have h1: "shape (fmat [[0]]) = [1, 1] \<and> shape (fmat [[0]]) = [1, 1] \<and> shape (fvec [2]) = [1]"
    by (simp only: sh)
  have c1: "ClipActorLoss_forward binary32 (1/2) (fmat [[0]]) (fmat [[0]]) (fvec [2])
              = Inr (Fin (- 2))"
    unfolding t1 [OF h1]
    using round32_0 round32_1 round32_2 round32_half round32_3_2
    by (simp add: clipped_surrogate_def Let_def fl_eval_mat nearest64_half nearest64_3_2)
  have z: "\<forall>b<1. elem (fvec [0]) [b] = Fin 0"
    by (simp add: fvec_def vec_def tmap_def)
  have r: "\<forall>b<1. \<forall>a<1. fl_finite (fexp binary32
             (fl_sub (rnd binary32) (elem (fmat [[1/2]]) [b, a]) (elem (fmat [[0]]) [b, a])))"
    using round32_half round32_exp_half
    by (simp add: fmat_def mat_def tmap_def binary32_def fl_sub_def fl_finite_def)
  have h2: "shape (fmat [[0]]) = [1, 1] \<and> shape (fmat [[1/2]]) = [1, 1] \<and>
    shape (fvec [0]) = [1] \<and> 0 < (1::nat) * 1 \<and>
    float_format binary32 \<and> fl_finite (rnd binary32 (nearest64 (1 - 1/2))) \<and>
    fl_finite (rnd binary32 (nearest64 (1 + 1/2))) \<and>
    (\<forall>b<1. elem (fvec [0]) [b] = Fin 0) \<and>
    (\<forall>b<1. \<forall>a<1. fl_finite (fexp binary32
       (fl_sub (rnd binary32) (elem (fmat [[1/2]]) [b, a]) (elem (fmat [[0]]) [b, a]))))"
    using sh b z r float_format_binary32 by (intro conjI) simp_all
  have c2: "ClipActorLoss_forward binary32 (1/2) (fmat [[0]]) (fmat [[1/2]]) (fvec [0])
              = Inr (Fin 0)"
    by (rule t2 [OF h2])
  have z3: "\<forall>i \<in> set (indices (shape (fvec [0]))). elem (fvec [0]) i = Fin 0"
    by (simp add: fvec_def vec_def tmap_def indices_1 upt_rec)
  have r3: "\<forall>d. tbinop (fl_sub (rnd binary32)) (fmat [[1/2]]) (fvec [0]) = Inr d \<longrightarrow>
       (\<forall>i \<in> set (indices (shape d)). fl_finite (fexp binary32 (elem d i)))"
    using round32_half round32_exp_half
    by (simp add: fl_eval_mat fl_finite_def)
  have n3: "numel (fvec [0]) \<noteq> 0" "numel (fmat [[1/2]]) \<noteq> 0"
    by (simp_all add: numel_def sh)
  have h3: "float_format binary32 \<and> fl_finite (rnd binary32 (nearest64 (1 - 1/2))) \<and>
    fl_finite (rnd binary32 (nearest64 (1 + 1/2))) \<and>
    (\<forall>i \<in> set (indices (shape (fvec [0]))). elem (fvec [0]) i = Fin 0) \<and>
    numel (fvec [0]) \<noteq> 0 \<and> numel (fmat [[1/2]]) \<noteq> 0 \<and> numel (fvec [0]) \<noteq> 0 \<and>
    (\<forall>d. tbinop (fl_sub (rnd binary32)) (fmat [[1/2]]) (fvec [0]) = Inr d \<longrightarrow>
       (\<forall>i \<in> set (indices (shape d)). fl_finite (fexp binary32 (elem d i))))"
    using b z3 r3 n3 float_format_binary32 by (intro conjI)
  obtain r' where f3: "ClipActorLoss_forward binary32 (1/2) (fvec [0]) (fmat [[1/2]]) (fvec [0])
     = Inr r'"
    by (simp add: ClipActorLoss_forward_def Let_def tbinop_def broadcast_shapes_def
        fmat_def mat_def fvec_def vec_def tmap_def unsqueeze_last_def)
  from t3 [OF h3 f3] f3 have c3:
    "ClipActorLoss_forward binary32 (1/2) (fvec [0]) (fmat [[1/2]]) (fvec [0]) = Inr (Fin 0)"
    by simp
  from c1 c2 c3 show ?thesis by (intro conjI)
qed

end
